theory Spec2Isabelle
  imports Main "HOL-Library.Char_ord" "HOL-Library.List_Lexorder"
    "HOL-Library.Product_Lexorder" "HOL-Library.Multiset"
begin

section \<open>The skills synchronisation script (scripts/sync-skills.js)\<close>

subsection \<open>JavaScript values\<close>

text \<open>
  The metadata the script merges is loosely typed: whatever \<^verbatim>\<open>JSON.parse\<close> and the
  front-matter parser deliver. A value is one of the JSON shapes or \<^verbatim>\<open>undefined\<close>.
  Numbers are the integers (fractions and NaN are outside the model); an object is the list
  of its own properties, the first binding of a key being the effective one.
\<close>

datatype jsval =
    JUndefined
  | JNull
  | JBool bool
  | JNum int
  | JStr string
  | JArr "jsval list"
  | JObj "(string \<times> jsval) list"

datatype error =
    Errno string
  | SyntaxError
  | TypeError
  | Failure string

text \<open>\<^verbatim>\<open>error.code\<close>: set on file-system errors only.\<close>

fun code :: "error \<Rightarrow> string option" where
  "code (Errno c) = Some c"
| "code _ = None"

text \<open>Truthiness, as \<^verbatim>\<open>||\<close>, \<^verbatim>\<open>&&\<close> and \<^verbatim>\<open>if\<close> test it.\<close>

fun truthy :: "jsval \<Rightarrow> bool" where
  "truthy JUndefined = False"
| "truthy JNull = False"
| "truthy (JBool b) = b"
| "truthy (JNum n) = (n \<noteq> 0)"
| "truthy (JStr s) = (s \<noteq> [])"
| "truthy (JArr xs) = True"
| "truthy (JObj kvs) = True"

text \<open>\<^verbatim>\<open>a || b\<close>\<close>

definition js_or :: "jsval \<Rightarrow> jsval \<Rightarrow> jsval" where
  "js_or a b = (if truthy a then a else b)"

text \<open>
  \<^verbatim>\<open>v.k\<close> for the property names the script reads (name, skills, tags, description,
  version, author, updatedAt, stars, sourceUrl): reading a property of \<^verbatim>\<open>undefined\<close>
  or \<^verbatim>\<open>null\<close> throws a TypeError, an object gives its own property, every other value
  has none of these properties.
\<close>

fun get_prop :: "jsval \<Rightarrow> string \<Rightarrow> error + jsval" where
  "get_prop JUndefined k = Inl TypeError"
| "get_prop JNull k = Inl TypeError"
| "get_prop (JObj kvs) k = Inr (case map_of kvs k of None \<Rightarrow> JUndefined | Some v \<Rightarrow> v)"
| "get_prop v k = Inr JUndefined"

text \<open>\<^verbatim>\<open>Array.isArray(v) && v.length > 0\<close>\<close>

fun nonempty_array :: "jsval \<Rightarrow> bool" where
  "nonempty_array (JArr xs) = (xs \<noteq> [])"
| "nonempty_array v = False"

fun isArray :: "jsval \<Rightarrow> bool" where
  "isArray (JArr xs) = True"
| "isArray v = False"

text \<open>
  A JavaScript \<^verbatim>\<open>Map\<close>: keys in insertion order; \<^verbatim>\<open>set\<close> on a key already present
  replaces the value and keeps the position. Keys are compared structurally, which is the
  Map's own comparison on strings, numbers, booleans, \<^verbatim>\<open>null\<close> and \<^verbatim>\<open>undefined\<close>;
  the script looks up string keys only.
\<close>

type_synonym ('k, 'v) jsmap = "('k \<times> 'v) list"

fun map_set :: "'k \<Rightarrow> 'v \<Rightarrow> ('k, 'v) jsmap \<Rightarrow> ('k, 'v) jsmap" where
  "map_set k v [] = [(k, v)]"
| "map_set k v ((k', v') # m) = (if k' = k then (k, v) # m else (k', v') # map_set k v m)"

definition map_get :: "('k, jsval) jsmap \<Rightarrow> 'k \<Rightarrow> jsval" where
  "map_get m k = (case map_of m k of None \<Rightarrow> JUndefined | Some v \<Rightarrow> v)"

subsection \<open>Strings and sorting as the host provides them\<close>

text \<open>
  Strings are lists of 8-bit characters. The functions of this subsection compare and
  rearrange the characters of a string and do not depend on what a character stands for.
  \<^verbatim>\<open>String.prototype.trim\<close> does: the white space and line terminators it strips are
  fixed by the language over all of Unicode (no-break space, byte order mark, line and
  paragraph separator and the space separators among them), so it is taken from the host
  below.
\<close>

definition startsWith :: "string \<Rightarrow> string \<Rightarrow> bool" where
  "startsWith s p = (take (length p) s = p)"

definition endsWith :: "string \<Rightarrow> string \<Rightarrow> bool" where
  "endsWith s p = (length p \<le> length s \<and> drop (length s - length p) s = p)"

text \<open>\<^verbatim>\<open>s.includes(p)\<close>\<close>

definition includes_str :: "string \<Rightarrow> string \<Rightarrow> bool" where
  "includes_str s p = list_ex (\<lambda>i. take (length p) (drop i s) = p) [0..<Suc (length s)]"

text \<open>
  \<^verbatim>\<open>s.replace(p, r)\<close> with a string pattern replaces the first occurrence only. In the
  replacement, \<^verbatim>\<open>$$\<close> stands for a dollar sign, \<^verbatim>\<open>$&\<close> for the matched text, and
  a dollar sign followed by a backquote or by a quote for the text before or after the match;
  a string pattern has no groups, so every other dollar sign stands for itself.
\<close>

fun substitution :: "string \<Rightarrow> string \<Rightarrow> string \<Rightarrow> string \<Rightarrow> string" where
  "substitution matched pre post (c # d # r) =
     (if c = CHR ''$'' \<and> d = CHR ''$'' then CHR ''$'' # substitution matched pre post r
      else if c = CHR ''$'' \<and> d = CHR ''&'' then matched @ substitution matched pre post r
      else if c = CHR ''$'' \<and> d = CHR 0x60 then pre @ substitution matched pre post r
      else if c = CHR ''$'' \<and> d = CHR 0x27 then post @ substitution matched pre post r
      else c # substitution matched pre post (d # r))"
| "substitution matched pre post r = r"

fun replace_at :: "string \<Rightarrow> string \<Rightarrow> string \<Rightarrow> string \<Rightarrow> string" where
  "replace_at p r pre [] = (if p = [] then pre @ substitution p pre [] r else pre)"
| "replace_at p r pre (c # cs) =
     (if take (length p) (c # cs) = p
      then pre @ substitution p pre (drop (length p) (c # cs)) r @ drop (length p) (c # cs)
      else replace_at p r (pre @ [c]) cs)"

definition replace_first :: "string \<Rightarrow> string \<Rightarrow> string \<Rightarrow> string" where
  "replace_first p r s = replace_at p r [] s"

text \<open>\<^verbatim>\<open>s.toLowerCase()\<close> on the ASCII letters.\<close>

definition toLowerCase :: "string \<Rightarrow> string" where
  "toLowerCase s =
     map (\<lambda>c. if CHR ''A'' \<le> c \<and> c \<le> CHR ''Z'' then char_of (of_char c + (32::nat)) else c) s"

text \<open>\<^verbatim>\<open>s.replace(/\\/g, '/')\<close>\<close>

definition slashes :: "string \<Rightarrow> string" where
  "slashes s = map (\<lambda>c. if c = CHR 0x5C then CHR ''/'' else c) s"

text \<open>
  \<^verbatim>\<open>Array.prototype.sort(cmp)\<close>. The sort is stable, and for a comparator that orders the
  elements consistently its result is the one stable sorted arrangement, whatever algorithm
  the host runs; insertion sort computes it. An element moves in front of the first element
  the comparator puts it strictly before. No element is compared with itself.
\<close>

fun insert_by :: "('a \<Rightarrow> 'a \<Rightarrow> int) \<Rightarrow> 'a \<Rightarrow> 'a list \<Rightarrow> 'a list" where
  "insert_by cmp x [] = [x]"
| "insert_by cmp x (y # ys) = (if cmp x y < 0 then x # y # ys else y # insert_by cmp x ys)"

definition array_sort :: "('a \<Rightarrow> 'a \<Rightarrow> int) \<Rightarrow> 'a list \<Rightarrow> 'a list" where
  "array_sort cmp xs = foldl (\<lambda>acc x. insert_by cmp x acc) [] xs"

text \<open>
  \<^verbatim>\<open>path.join(a, b)\<close> for a relative path \<open>a\<close> (possibly empty) and an entry name \<open>b\<close>,
  and \<^verbatim>\<open>path.extname\<close> of an entry name: the part from the last dot on, empty when there
  is no dot, when the last dot is the first character, or when the name is \<^verbatim>\<open>..\<close>.
\<close>

definition path_join :: "string \<Rightarrow> string \<Rightarrow> string" where
  "path_join a b = (if a = [] then b else a @ ''/'' @ b)"

definition extname :: "string \<Rightarrow> string" where
  "extname name =
     (if CHR ''.'' \<notin> set name then []
      else let after = takeWhile (\<lambda>c. c \<noteq> CHR ''.'') (rev name);
               dot = length name - length after - 1
           in if dot = 0 \<or> name = ''..'' then [] else drop dot name)"

subsection \<open>Entities, file records, tag summaries and the index\<close>

record file_rec =
  file_name :: string
  file_path :: string
  file_type :: string
  relativePath :: string

text \<open>
  The entity as the index lists it, and the entity as scanSkills builds it: the same
  properties and the descriptor's body.
\<close>

record skill_summary =
  skill_id :: string
  skill_name :: jsval
  skill_path :: string
  description :: jsval
  tags :: jsval
  version :: jsval
  author :: jsval
  updatedAt :: jsval
  stars :: jsval
  sourceUrl :: jsval
  files :: "file_rec list"
  hasMultipleFiles :: bool
  installCommand :: string
  downloadUrl :: string

record skill = skill_summary +
  content :: string

record tag_summary =
  tag_name :: string
  tag_count :: nat

record catalog =
  generatedAt :: string
  sourceRepo :: string
  total :: nat
  index_version :: string
  index_tags :: "tag_summary list"
  index_skills :: "skill_summary list"

subsection \<open>The file system\<close>

text \<open>
  A directory lists its entries by name, each name once. \<open>BadFile\<close> is a file and
  \<open>BadDir\<close> a directory that the process may not read. Paths are lists of names from the
  root. The directory walks of the script take each child from the listing of its parent,
  which is what \<^verbatim>\<open>path.join(dir, entry.name)\<close> names.
\<close>

datatype node = File string | Dir "(string \<times> node) list" | BadFile | BadDir

fun isDirectory :: "node \<Rightarrow> bool" where
  "isDirectory (Dir es) = True"
| "isDirectory BadDir = True"
| "isDirectory n = False"

fun isFile :: "node \<Rightarrow> bool" where
  "isFile (File c) = True"
| "isFile BadFile = True"
| "isFile n = False"

fun resolve :: "node \<Rightarrow> string list \<Rightarrow> error + node" where
  "resolve n [] = Inr n"
| "resolve (Dir es) (k # ks) =
     (case map_of es k of None \<Rightarrow> Inl (Errno ''ENOENT'') | Some c \<Rightarrow> resolve c ks)"
| "resolve BadDir (k # ks) = Inl (Errno ''EACCES'')"
| "resolve n (k # ks) = Inl (Errno ''ENOTDIR'')"

fun readdir_node :: "node \<Rightarrow> error + (string \<times> node) list" where
  "readdir_node (Dir es) = Inr es"
| "readdir_node BadDir = Inl (Errno ''EACCES'')"
| "readdir_node n = Inl (Errno ''ENOTDIR'')"

fun readFile_node :: "node \<Rightarrow> error + string" where
  "readFile_node (File c) = Inr c"
| "readFile_node BadFile = Inl (Errno ''EACCES'')"
| "readFile_node n = Inl (Errno ''EISDIR'')"

definition access :: "node \<Rightarrow> string list \<Rightarrow> error + unit" where
  "access t p = (case resolve t p of Inl e \<Rightarrow> Inl e | Inr n \<Rightarrow> Inr ())"

definition readdir :: "node \<Rightarrow> string list \<Rightarrow> error + (string \<times> node) list" where
  "readdir t p = (case resolve t p of Inl e \<Rightarrow> Inl e | Inr n \<Rightarrow> readdir_node n)"

definition readFile :: "node \<Rightarrow> string list \<Rightarrow> error + string" where
  "readFile t p = (case resolve t p of Inl e \<Rightarrow> Inl e | Inr n \<Rightarrow> readFile_node n)"

text \<open>The tree after \<^verbatim>\<open>writeFile\<close>, \<^verbatim>\<open>mkdir\<close> (recursive), \<^verbatim>\<open>unlink\<close> and
  \<^verbatim>\<open>rm\<close> (recursive, force), and after a directory has been filled by a clone.\<close>

fun put_file :: "string list \<Rightarrow> string \<Rightarrow> node \<Rightarrow> error + node" where
  "put_file [] c (File old) = Inr (File c)"
| "put_file [] c BadFile = Inl (Errno ''EACCES'')"
| "put_file [] c n = Inl (Errno ''EISDIR'')"
| "put_file (k # ks) c (Dir es) =
     (case map_of es k of
        None \<Rightarrow> if ks = [] then Inr (Dir (es @ [(k, File c)])) else Inl (Errno ''ENOENT'')
      | Some child \<Rightarrow>
          (case put_file ks c child of
             Inl e \<Rightarrow> Inl e
           | Inr child' \<Rightarrow> Inr (Dir (map_set k child' es))))"
| "put_file (k # ks) c BadDir = Inl (Errno ''EACCES'')"
| "put_file (k # ks) c n = Inl (Errno ''ENOTDIR'')"

fun make_dirs :: "string list \<Rightarrow> node \<Rightarrow> error + node" where
  "make_dirs [] (Dir es) = Inr (Dir es)"
| "make_dirs [] BadDir = Inr BadDir"
| "make_dirs [] n = Inl (Errno ''EEXIST'')"
| "make_dirs (k # ks) (Dir es) =
     (case map_of es k of
        None \<Rightarrow>
          (case make_dirs ks (Dir []) of
             Inl e \<Rightarrow> Inl e
           | Inr child \<Rightarrow> Inr (Dir (es @ [(k, child)])))
      | Some child \<Rightarrow>
          (case make_dirs ks child of
             Inl e \<Rightarrow> Inl e
           | Inr child' \<Rightarrow> Inr (Dir (map_set k child' es))))"
| "make_dirs (k # ks) BadDir = Inl (Errno ''EACCES'')"
| "make_dirs (k # ks) n = Inl (Errno ''ENOTDIR'')"

fun remove_file :: "string list \<Rightarrow> node \<Rightarrow> error + node" where
  "remove_file [] n = Inl (Errno ''EPERM'')"
| "remove_file (k # ks) (Dir es) =
     (case map_of es k of
        None \<Rightarrow> Inl (Errno ''ENOENT'')
      | Some child \<Rightarrow>
          if ks = [] then
            (if isDirectory child then Inl (Errno ''EISDIR'')
             else Inr (Dir (filter (\<lambda>(k', n). k' \<noteq> k) es)))
          else
            (case remove_file ks child of
               Inl e \<Rightarrow> Inl e
             | Inr child' \<Rightarrow> Inr (Dir (map_set k child' es))))"
| "remove_file (k # ks) BadDir = Inl (Errno ''EACCES'')"
| "remove_file (k # ks) n = Inl (Errno ''ENOTDIR'')"

fun remove_tree :: "string list \<Rightarrow> node \<Rightarrow> error + node" where
  "remove_tree [] n = Inl (Errno ''EPERM'')"
| "remove_tree (k # ks) (Dir es) =
     (case map_of es k of
        None \<Rightarrow> Inr (Dir es)
      | Some child \<Rightarrow>
          if ks = [] then Inr (Dir (filter (\<lambda>(k', n). k' \<noteq> k) es))
          else
            (case remove_tree ks child of
               Inl e \<Rightarrow> Inl e
             | Inr child' \<Rightarrow> Inr (Dir (map_set k child' es))))"
| "remove_tree (k # ks) BadDir = Inl (Errno ''EACCES'')"
| "remove_tree (k # ks) n = Inr n"

fun graft :: "string list \<Rightarrow> node \<Rightarrow> node \<Rightarrow> error + node" where
  "graft [] new n = Inr new"
| "graft (k # ks) new (Dir es) =
     (case map_of es k of
        None \<Rightarrow> Inl (Errno ''ENOENT'')
      | Some child \<Rightarrow>
          (case graft ks new child of
             Inl e \<Rightarrow> Inl e
           | Inr child' \<Rightarrow> Inr (Dir (map_set k child' es))))"
| "graft (k # ks) new BadDir = Inl (Errno ''EACCES'')"
| "graft (k # ks) new n = Inl (Errno ''ENOTDIR'')"

subsection \<open>The archive object\<close>

text \<open>
  A JSZip object is a table from entry names to entries; a folder's name ends in a slash.
  \<^verbatim>\<open>folder(name)\<close> adds the folder entry unless the table has it and gives a view of the
  same table rooted at the folder; \<^verbatim>\<open>file(name, data)\<close> stores the data under the view's
  root followed by the name.
\<close>

datatype zentry = ZFile string | ZFolder

type_synonym zip = "string \<rightharpoonup> zentry"

definition zip_file :: "string \<Rightarrow> string \<Rightarrow> string \<Rightarrow> zip \<Rightarrow> zip" where
  "zip_file root name data z = z(root @ name \<mapsto> ZFile data)"

definition zip_folder :: "string \<Rightarrow> string \<Rightarrow> zip \<Rightarrow> string \<times> zip" where
  "zip_folder root name z =
     (let key = root @ name @ ''/''
      in (key, if z key = None then z(key \<mapsto> ZFolder) else z))"

subsection \<open>Host, configuration and the state of a run\<close>

text \<open>
  What the script takes from its platform and libraries: the JSON parser, the front-matter
  parser (data and body), \<^verbatim>\<open>String.prototype.trim\<close>, the collation of
  \<^verbatim>\<open>localeCompare\<close>, the clock, the encoders
  of the archive, the index and a content payload, the outcome of \<^verbatim>\<open>git clone\<close> (the
  tree it checks out), and the paths the operating system refuses to write.
\<close>

record host =
  json_parse :: "string \<Rightarrow> error + jsval"
  matter :: "string \<Rightarrow> error + jsval \<times> string"
  trim :: "string \<Rightarrow> string"
  localeCompare :: "string \<Rightarrow> string \<Rightarrow> int"
  today :: string
  now :: string
  generateAsync :: "zip \<Rightarrow> string"
  stringify_index :: "catalog \<Rightarrow> string"
  stringify_content :: "string \<Rightarrow> file_rec list \<Rightarrow> string"
  git_clone :: "string \<Rightarrow> error + node"
  denies_write :: "string list \<Rightarrow> bool"

record config =
  root_dir :: "string list"
  localRepoPath :: "string list"
  remoteRepoUrl :: "string option"
  githubToken :: "string option"
  outputPath :: "string list"
  downloadsDir :: "string list"
  tempCloneDir :: "string list"

text \<open>
  Console output and changes of the file system are recorded in order, one event per
  message, the message abbreviated (blank lines and counts are left out).
\<close>

datatype event =
    Log string
  | Warn string
  | Err string
  | Wrote "string list"
  | Unlinked "string list"
  | MadeDir "string list"
  | Removed "string list"
  | Cloned string

record world =
  fs :: node
  trace :: "event list"

definition emit :: "event \<Rightarrow> world \<Rightarrow> world" where
  "emit e w = w\<lparr> trace := trace w @ [e] \<rparr>"

text \<open>Sequencing: an exception ends the sequence with the state reached.\<close>

definition then_do ::
  "(error + 'a) \<times> world \<Rightarrow> ('a \<Rightarrow> world \<Rightarrow> (error + 'b) \<times> world) \<Rightarrow> (error + 'b) \<times> world" where
  "then_do r f = (case r of (Inl e, w) \<Rightarrow> (Inl e, w) | (Inr x, w) \<Rightarrow> f x w)"

definition writeFile :: "host \<Rightarrow> string list \<Rightarrow> string \<Rightarrow> world \<Rightarrow> (error + unit) \<times> world" where
  "writeFile h p c w =
     (if denies_write h p then (Inl (Errno ''EACCES''), w)
      else case put_file p c (fs w) of
             Inl e \<Rightarrow> (Inl e, w)
           | Inr t \<Rightarrow> (Inr (), emit (Wrote p) (w\<lparr> fs := t \<rparr>)))"

definition mkdir :: "host \<Rightarrow> string list \<Rightarrow> world \<Rightarrow> (error + unit) \<times> world" where
  "mkdir h p w =
     (if denies_write h p then (Inl (Errno ''EACCES''), w)
      else case make_dirs p (fs w) of
             Inl e \<Rightarrow> (Inl e, w)
           | Inr t \<Rightarrow> (Inr (), emit (MadeDir p) (w\<lparr> fs := t \<rparr>)))"

definition unlink :: "host \<Rightarrow> string list \<Rightarrow> world \<Rightarrow> (error + unit) \<times> world" where
  "unlink h p w =
     (if denies_write h p then (Inl (Errno ''EACCES''), w)
      else case remove_file p (fs w) of
             Inl e \<Rightarrow> (Inl e, w)
           | Inr t \<Rightarrow> (Inr (), emit (Unlinked p) (w\<lparr> fs := t \<rparr>)))"

definition rm :: "host \<Rightarrow> string list \<Rightarrow> world \<Rightarrow> (error + unit) \<times> world" where
  "rm h p w =
     (if denies_write h p then (Inl (Errno ''EACCES''), w)
      else case remove_tree p (fs w) of
             Inl e \<Rightarrow> (Inl e, w)
           | Inr t \<Rightarrow> (Inr (), emit (Removed p) (w\<lparr> fs := t \<rparr>)))"

subsection \<open>ensureDir and getRepoPath\<close>

definition ensureDir :: "host \<Rightarrow> string list \<Rightarrow> world \<Rightarrow> (error + unit) \<times> world" where
  "ensureDir h dir w =
     (case access (fs w) dir of
        Inr u \<Rightarrow> (Inr (), w)
      | Inl e \<Rightarrow> mkdir h dir w)"

text \<open>The clone URL, with the token put in when there is one and the host is GitHub.\<close>

definition clone_url :: "config \<Rightarrow> string \<Rightarrow> string" where
  "clone_url cfg url =
     (case githubToken cfg of
        None \<Rightarrow> url
      | Some token \<Rightarrow>
          if token \<noteq> [] \<and> includes_str url ''github.com''
          then replace_first ''https://github.com/''
                 (''https://x-access-token:'' @ token @ ''@github.com/'') url
          else url)"

text \<open>\<^verbatim>\<open>execSync\<close> of the shallow clone into the temporary directory.\<close>

definition execSync_clone :: "host \<Rightarrow> string \<Rightarrow> string list \<Rightarrow> world \<Rightarrow> (error + unit) \<times> world" where
  "execSync_clone h url dir w =
     (case git_clone h url of
        Inl e \<Rightarrow> (Inl e, w)
      | Inr tree \<Rightarrow>
          (case graft dir tree (fs w) of
             Inl e \<Rightarrow> (Inl e, w)
           | Inr t \<Rightarrow> (Inr (), emit (Cloned url) (w\<lparr> fs := t \<rparr>))))"

definition getRepoPath :: "host \<Rightarrow> config \<Rightarrow> world \<Rightarrow> (error + string list) \<times> world" where
  "getRepoPath h cfg w =
     (case access (fs w) (localRepoPath cfg) of
        Inr u \<Rightarrow> (Inr (localRepoPath cfg), emit (Log ''using local skills-repo'') w)
      | Inl e \<Rightarrow>
          (let w1 = emit (Log ''local skills-repo does not exist'') w in
           case remoteRepoUrl cfg of
             None \<Rightarrow> (Inl (Failure ''skills-repo not found''), w1)
           | Some url \<Rightarrow>
               if url = [] then (Inl (Failure ''skills-repo not found''), w1)
               else
                 (case then_do (rm h (tempCloneDir cfg) (emit (Log ''cloning remote repository'') w1))
                         (\<lambda>u w2. then_do (ensureDir h (tempCloneDir cfg) w2)
                         (\<lambda>u w3. then_do (execSync_clone h (clone_url cfg url) (tempCloneDir cfg) w3)
                         (\<lambda>u w4. (Inr (tempCloneDir cfg), w4)))) of
                    (Inl e, w') \<Rightarrow> (Inl e, emit (Err ''clone failed'') w')
                  | (Inr p, w') \<Rightarrow> (Inr p, w'))))"

subsection \<open>readSkillsIndex and readSkillsJsonData\<close>

text \<open>The loop \<^verbatim>\<open>for (const skill of data.skills) indexMap.set(skill.name, skill)\<close>.\<close>

fun index_skills :: "jsval list \<Rightarrow> (jsval, jsval) jsmap \<Rightarrow> error + (jsval, jsval) jsmap" where
  "index_skills [] indexMap = Inr indexMap"
| "index_skills (skill # rest) indexMap =
     (case get_prop skill ''name'' of
        Inl e \<Rightarrow> Inl e
      | Inr nm \<Rightarrow> index_skills rest (map_set nm skill indexMap))"

text \<open>The body of the try block of readSkillsIndex.\<close>

definition read_index :: "host \<Rightarrow> node \<Rightarrow> string list \<Rightarrow> error + (jsval, jsval) jsmap" where
  "read_index h t repoPath =
     (case readFile t (repoPath @ [''skills.json'']) of Inl e \<Rightarrow> Inl e | Inr str \<Rightarrow>
      case json_parse h str of Inl e \<Rightarrow> Inl e | Inr data \<Rightarrow>
      case get_prop data ''skills'' of Inl e \<Rightarrow> Inl e | Inr sk \<Rightarrow>
      (case sk of JArr skills \<Rightarrow> index_skills skills [] | _ \<Rightarrow> Inr []))"

definition readSkillsIndex ::
  "host \<Rightarrow> node \<Rightarrow> string list \<Rightarrow> (jsval, jsval) jsmap \<times> event list" where
  "readSkillsIndex h t repoPath =
     (case read_index h t repoPath of
        Inr indexMap \<Rightarrow> (indexMap, [Log ''index file read''])
      | Inl e \<Rightarrow> ([], [Warn ''skills.json missing or unparsable, using SKILL.md data only'']))"

text \<open>
  The loop of readSkillsJsonData over the directory entries. An exception ends the loop;
  the map filled so far is what the function returns after the catch.
\<close>

fun read_json_entries ::
  "host \<Rightarrow> (string \<times> node) list \<Rightarrow> (jsval, jsval) jsmap
     \<Rightarrow> (jsval, jsval) jsmap \<times> error option" where
  "read_json_entries h [] skillsDataMap = (skillsDataMap, None)"
| "read_json_entries h ((name, n) # rest) skillsDataMap =
     (if \<not> isFile n \<or> \<not> endsWith name ''.json'' then read_json_entries h rest skillsDataMap
      else case readFile_node n of Inl e \<Rightarrow> (skillsDataMap, Some e) | Inr str \<Rightarrow>
           case json_parse h str of Inl e \<Rightarrow> (skillsDataMap, Some e) | Inr skillData \<Rightarrow>
           case get_prop skillData ''name'' of Inl e \<Rightarrow> (skillsDataMap, Some e) | Inr nm \<Rightarrow>
             read_json_entries h rest
               (if truthy nm then map_set nm skillData skillsDataMap else skillsDataMap))"

definition readSkillsJsonData ::
  "host \<Rightarrow> node \<Rightarrow> string list \<Rightarrow> (jsval, jsval) jsmap \<times> event list" where
  "readSkillsJsonData h t repoPath =
     (case readdir t (repoPath @ [''skills-json'']) of
        Inl e \<Rightarrow> ([], [Warn ''cannot read skills-json directory''])
      | Inr entries \<Rightarrow>
          (case read_json_entries h entries [] of
             (skillsDataMap, None) \<Rightarrow> (skillsDataMap, [Log ''skills-json data read''])
           | (skillsDataMap, Some e) \<Rightarrow>
               (skillsDataMap, [Warn ''cannot read skills-json directory''])))"

subsection \<open>getFileType and scanSkillFiles\<close>

definition typeMap :: "(string \<times> string) list" where
  "typeMap =
     [(''.md'', ''markdown''), (''.js'', ''code''), (''.ts'', ''code''), (''.jsx'', ''code''),
      (''.tsx'', ''code''), (''.json'', ''code''), (''.yaml'', ''code''), (''.yml'', ''code''),
      (''.sh'', ''code''), (''.bash'', ''code''), (''.py'', ''code''), (''.rb'', ''code''),
      (''.go'', ''code''), (''.rs'', ''code''), (''.java'', ''code''), (''.c'', ''code''),
      (''.cpp'', ''code''), (''.h'', ''code''), (''.css'', ''code''), (''.scss'', ''code''),
      (''.less'', ''code''), (''.html'', ''code''), (''.xml'', ''code''), (''.txt'', ''text''),
      (''.mdx'', ''markdown'')]"

definition getFileType :: "string \<Rightarrow> string" where
  "getFileType ext = (case map_of typeMap ext of None \<Rightarrow> ''text'' | Some t \<Rightarrow> t)"

text \<open>
  The inner function scanDir and its loop over the entries; \<open>fl\<close> is the array
  \<^verbatim>\<open>files\<close> that the calls push onto.
\<close>

fun scanDir :: "string \<Rightarrow> node \<Rightarrow> string \<Rightarrow> file_rec list \<Rightarrow> error + file_rec list"
  and scan_entries ::
    "string \<Rightarrow> (string \<times> node) list \<Rightarrow> string \<Rightarrow> file_rec list \<Rightarrow> error + file_rec list"
where
  "scanDir skillName (Dir entries) rel fl = scan_entries skillName entries rel fl"
| "scanDir skillName BadDir rel fl = Inl (Errno ''EACCES'')"
| "scanDir skillName (File c) rel fl = Inl (Errno ''ENOTDIR'')"
| "scanDir skillName BadFile rel fl = Inl (Errno ''ENOTDIR'')"
| "scan_entries skillName [] rel fl = Inr fl"
| "scan_entries skillName ((name, n) # rest) rel fl =
     (if isDirectory n then
        (case scanDir skillName n (path_join rel name) fl of
           Inl e \<Rightarrow> Inl e
         | Inr fl' \<Rightarrow> scan_entries skillName rest rel fl')
      else
        scan_entries skillName rest rel
          (fl @ [\<lparr> file_name = name,
                   file_path = slashes (path_join skillName (path_join rel name)),
                   file_type = getFileType (toLowerCase (extname name)),
                   relativePath = path_join rel name \<rparr>]))"

text \<open>The comparator handed to \<^verbatim>\<open>files.sort\<close>.\<close>

definition file_cmp :: "(string \<Rightarrow> string \<Rightarrow> int) \<Rightarrow> file_rec \<Rightarrow> file_rec \<Rightarrow> int" where
  "file_cmp lc a b =
     (if file_name a = ''SKILL.md'' then -1
      else if file_name b = ''SKILL.md'' then 1
      else lc (file_name a) (file_name b))"

definition scanSkillFiles :: "host \<Rightarrow> node \<Rightarrow> string \<Rightarrow> error + file_rec list" where
  "scanSkillFiles h skillDir skillName =
     (case scanDir skillName skillDir [] [] of
        Inl e \<Rightarrow> Inl e
      | Inr fl \<Rightarrow> Inr (array_sort (file_cmp (localeCompare h)) fl))"

subsection \<open>scanSkills\<close>

text \<open>
  The tags expression. \<open>jsonData\<close> and \<open>indexData\<close> are the results of
  \<^verbatim>\<open>map.get(entry.name) || {}\<close>; \<open>data\<close> is \<^verbatim>\<open>parsed.data\<close>, read only when
  neither of the other two has a non-empty array.
\<close>

definition merge_tags :: "jsval \<Rightarrow> jsval \<Rightarrow> jsval \<Rightarrow> error + jsval" where
  "merge_tags jsonData indexData data =
     (case get_prop jsonData ''tags'' of Inl e \<Rightarrow> Inl e | Inr jt \<Rightarrow>
        if nonempty_array jt then Inr jt
        else (case get_prop indexData ''tags'' of Inl e \<Rightarrow> Inl e | Inr it \<Rightarrow>
          if nonempty_array it then Inr it
          else (case get_prop data ''tags'' of Inl e \<Rightarrow> Inl e | Inr ft \<Rightarrow>
            Inr (if isArray ft then ft else JArr []))))"

text \<open>
  A chain \<^verbatim>\<open>a || b\<close> whose operands are property reads: \<open>b\<close> is evaluated, and can
  throw, only when \<open>a\<close> is falsy.
\<close>

definition or_else :: "error + jsval \<Rightarrow> error + jsval \<Rightarrow> error + jsval" where
  "or_else a b = (case a of Inl e \<Rightarrow> Inl e | Inr v \<Rightarrow> if truthy v then Inr v else b)"

text \<open>
  The object literal pushed onto \<^verbatim>\<open>skills\<close>, its properties evaluated in order.
  \<open>date\<close> is \<^verbatim>\<open>new Date().toISOString().split('T')[0]\<close>. The key
  \<^verbatim>\<open>downloadUrl\<close> occurs twice in the literal; the later one is the value of the property.
\<close>

definition make_skill ::
  "string \<Rightarrow> string \<Rightarrow> jsval \<Rightarrow> string \<Rightarrow> jsval \<Rightarrow> jsval \<Rightarrow> file_rec list \<Rightarrow> error + skill" where
  "make_skill date entry_name data body indexData jsonData fl =
     (case merge_tags jsonData indexData data of Inl e \<Rightarrow> Inl e | Inr tgs \<Rightarrow>
      case or_else (get_prop data ''name'') (Inr (JStr entry_name)) of Inl e \<Rightarrow> Inl e | Inr nm \<Rightarrow>
      case or_else (get_prop data ''description'')
             (or_else (get_prop jsonData ''description'')
               (or_else (get_prop indexData ''description'') (Inr (JStr []))))
        of Inl e \<Rightarrow> Inl e | Inr descr \<Rightarrow>
      case or_else (get_prop data ''version'')
             (or_else (get_prop jsonData ''version'')
               (or_else (get_prop indexData ''version'') (Inr (JStr ''1.0.0''))))
        of Inl e \<Rightarrow> Inl e | Inr ver \<Rightarrow>
      case or_else (get_prop data ''author'')
             (or_else (get_prop jsonData ''author'') (Inr (JStr ''AI-Agent Team'')))
        of Inl e \<Rightarrow> Inl e | Inr auth \<Rightarrow>
      case or_else (get_prop data ''updatedAt'')
             (or_else (get_prop jsonData ''updatedAt'') (Inr (JStr date)))
        of Inl e \<Rightarrow> Inl e | Inr upd \<Rightarrow>
      case or_else (get_prop jsonData ''stars'') (Inr (JNum 0)) of Inl e \<Rightarrow> Inl e | Inr st \<Rightarrow>
      case or_else (get_prop jsonData ''sourceUrl'') (Inr (JStr [])) of Inl e \<Rightarrow> Inl e | Inr src \<Rightarrow>
      Inr \<lparr> skill_id = entry_name,
            skill_name = nm,
            skill_path = entry_name,
            description = descr,
            tags = tgs,
            version = ver,
            author = auth,
            updatedAt = upd,
            stars = st,
            sourceUrl = src,
            files = fl,
            hasMultipleFiles = (length fl > 1),
            installCommand = ''pa-skills add '' @ entry_name,
            downloadUrl = ''/downloads/'' @ entry_name @ ''.zip'',
            content = body \<rparr>)"

text \<open>The try block of the loop, for one directory \<open>skillDir\<close> of the collection.\<close>

definition scan_entry ::
  "host \<Rightarrow> (jsval, jsval) jsmap \<Rightarrow> (jsval, jsval) jsmap \<Rightarrow> string \<Rightarrow> node \<Rightarrow> error + skill" where
  "scan_entry h skillsIndex skillsJsonData name skillDir =
     (case resolve skillDir [''SKILL.md''] of Inl e \<Rightarrow> Inl e | Inr md \<Rightarrow>
      case readFile_node md of Inl e \<Rightarrow> Inl e | Inr str \<Rightarrow>
      case matter h str of Inl e \<Rightarrow> Inl e | Inr (data, body) \<Rightarrow>
      case scanSkillFiles h skillDir name of Inl e \<Rightarrow> Inl e | Inr fl \<Rightarrow>
        make_skill (today h) name data body
          (js_or (map_get skillsIndex (JStr name)) (JObj []))
          (js_or (map_get skillsJsonData (JStr name)) (JObj []))
          fl)"

text \<open>
  The loop over the entries of the collection: the entities found and the console output.
  An exception in the try block skips the entry, with a warning unless its code is ENOENT.
\<close>

fun scan_collection ::
  "host \<Rightarrow> (jsval, jsval) jsmap \<Rightarrow> (jsval, jsval) jsmap \<Rightarrow> (string \<times> node) list
     \<Rightarrow> skill list \<times> event list" where
  "scan_collection h skillsIndex skillsJsonData [] = ([], [])"
| "scan_collection h skillsIndex skillsJsonData ((name, n) # rest) =
     (let (skills, evs) = scan_collection h skillsIndex skillsJsonData rest in
      if \<not> isDirectory n then (skills, evs)
      else if startsWith name ''.'' \<or> name = ''node_modules'' then (skills, evs)
      else case scan_entry h skillsIndex skillsJsonData name n of
             Inr s \<Rightarrow> (s # skills, Log (''found skill: '' @ name) # evs)
           | Inl e \<Rightarrow>
               (skills,
                (if code e \<noteq> Some ''ENOENT'' then [Warn (''skipped '' @ name)] else []) @ evs))"

text \<open>The part of scanSkills after the two metadata readers have returned.\<close>

definition scan_collection_dir ::
  "host \<Rightarrow> node \<Rightarrow> string list \<Rightarrow> (jsval, jsval) jsmap \<Rightarrow> (jsval, jsval) jsmap
     \<Rightarrow> (error + skill list) \<times> event list" where
  "scan_collection_dir h t repoPath skillsIndex skillsJsonData =
     (let skillsCollectionPath = repoPath @ [''skills-collection'']
      in case access t skillsCollectionPath of
           Inl e \<Rightarrow> (Inr [], [Err ''skills-collection directory not found''])
         | Inr u \<Rightarrow>
             (case readdir t skillsCollectionPath of
                Inl e \<Rightarrow> (Inl e, [])
              | Inr entries \<Rightarrow>
                  (let (skills, evs) = scan_collection h skillsIndex skillsJsonData entries
                   in (Inr skills, evs))))"

definition scanSkills ::
  "host \<Rightarrow> node \<Rightarrow> string list \<Rightarrow> (error + skill list) \<times> event list" where
  "scanSkills h t repoPath =
     (let (skillsIndex, ev1) = readSkillsIndex h t repoPath;
          (skillsJsonData, ev2) = readSkillsJsonData h t repoPath;
          (result, ev3) = scan_collection_dir h t repoPath skillsIndex skillsJsonData
      in (result, ev1 @ ev2 @ ev3))"

subsection \<open>calculateTags\<close>

text \<open>\<^verbatim>\<open>tagCount.get(tag) || 0\<close>\<close>

definition count_of :: "(string, nat) jsmap \<Rightarrow> string \<Rightarrow> nat" where
  "count_of m t = (case map_of m t of None \<Rightarrow> 0 | Some c \<Rightarrow> c)"

text \<open>
  The inner loop. \<^verbatim>\<open>tag && tag.trim()\<close>: a falsy tag is skipped; a truthy tag that is not
  a string has no \<^verbatim>\<open>trim\<close> method, and the call throws a TypeError.
\<close>

fun count_tags ::
  "host \<Rightarrow> jsval list \<Rightarrow> (string, nat) jsmap \<Rightarrow> error + (string, nat) jsmap" where
  "count_tags h [] m = Inr m"
| "count_tags h (tag # rest) m =
     (if \<not> truthy tag then count_tags h rest m
      else case tag of
             JStr t \<Rightarrow>
               if trim h t \<noteq> [] then count_tags h rest (map_set t (count_of m t + 1) m)
               else count_tags h rest m
           | _ \<Rightarrow> Inl TypeError)"

text \<open>The outer loop; \<^verbatim>\<open>Array.isArray(skill.tags)\<close> guards the inner one.\<close>

fun count_skills ::
  "host \<Rightarrow> skill list \<Rightarrow> (string, nat) jsmap \<Rightarrow> error + (string, nat) jsmap" where
  "count_skills h [] m = Inr m"
| "count_skills h (s # rest) m =
     (case tags s of
        JArr ts \<Rightarrow>
          (case count_tags h ts m of Inl e \<Rightarrow> Inl e | Inr m' \<Rightarrow> count_skills h rest m')
      | _ \<Rightarrow> count_skills h rest m)"

text \<open>The comparator \<^verbatim>\<open>(a, b) => b.count - a.count\<close>.\<close>

definition by_count_desc :: "tag_summary \<Rightarrow> tag_summary \<Rightarrow> int" where
  "by_count_desc a b = int (tag_count b) - int (tag_count a)"

definition calculateTags :: "host \<Rightarrow> skill list \<Rightarrow> error + tag_summary list" where
  "calculateTags h skills =
     (case count_skills h skills [] of
        Inl e \<Rightarrow> Inl e
      | Inr tagCount \<Rightarrow>
          Inr (array_sort by_count_desc
                 (map (\<lambda>(name, count). \<lparr> tag_name = name, tag_count = count \<rparr>) tagCount)))"

subsection \<open>packSkill\<close>

text \<open>
  The inner function addFilesToZip and its loop over the entries; \<open>root\<close> is the root of
  the folder view the call writes into.
\<close>

fun addFilesToZip :: "node \<Rightarrow> string \<Rightarrow> zip \<Rightarrow> error + zip"
  and add_entries :: "(string \<times> node) list \<Rightarrow> string \<Rightarrow> zip \<Rightarrow> error + zip"
where
  "addFilesToZip (Dir entries) root z = add_entries entries root z"
| "addFilesToZip BadDir root z = Inl (Errno ''EACCES'')"
| "addFilesToZip (File c) root z = Inl (Errno ''ENOTDIR'')"
| "addFilesToZip BadFile root z = Inl (Errno ''ENOTDIR'')"
| "add_entries [] root z = Inr z"
| "add_entries ((name, n) # rest) root z =
     (if isDirectory n then
        (case zip_folder root name z of (newRoot, z1) \<Rightarrow>
           (case addFilesToZip n newRoot z1 of
              Inl e \<Rightarrow> Inl e
            | Inr z2 \<Rightarrow> add_entries rest root z2))
      else
        (case readFile_node n of
           Inl e \<Rightarrow> Inl e
         | Inr data \<Rightarrow> add_entries rest root (zip_file root name data z)))"

text \<open>
  packSkill returns the size of the archive file; the model gives it in bytes (the source
  formats it in KB with one decimal, for the console only).
\<close>

definition packSkill ::
  "host \<Rightarrow> config \<Rightarrow> skill \<Rightarrow> string list \<Rightarrow> world \<Rightarrow> (error + nat) \<times> world" where
  "packSkill h cfg skill repoPath w =
     (case resolve (fs w) (repoPath @ [''skills-collection'', skill_id skill]) of
        Inl e \<Rightarrow> (Inl e, w)
      | Inr skillDir \<Rightarrow>
          (case addFilesToZip skillDir [] Map.empty of
             Inl e \<Rightarrow> (Inl e, w)
           | Inr z \<Rightarrow>
               (let zipPath = downloadsDir cfg @ [skill_id skill @ ''.zip''];
                    zipContent = generateAsync h z
                in then_do (writeFile h zipPath zipContent w)
                     (\<lambda>u w'. (Inr (length zipContent),
                               emit (Log (''packed '' @ skill_id skill @ ''.zip'')) w')))))"

subsection \<open>generateIndex\<close>

definition generateIndex :: "host \<Rightarrow> config \<Rightarrow> skill list \<Rightarrow> error + catalog" where
  "generateIndex h cfg skills =
     (case calculateTags h skills of
        Inl e \<Rightarrow> Inl e
      | Inr tgs \<Rightarrow>
          Inr \<lparr> generatedAt = now h,
                sourceRepo = (case remoteRepoUrl cfg of
                                None \<Rightarrow> ''local''
                              | Some url \<Rightarrow> if url = [] then ''local'' else url),
                total = length skills,
                index_version = ''1.0.0'',
                index_tags = tgs,
                index_skills = map skill_summary.truncate skills \<rparr>)"

subsection \<open>main\<close>

text \<open>The three iterations of main over lists.\<close>

fun unlink_all :: "host \<Rightarrow> string list \<Rightarrow> string list \<Rightarrow> world \<Rightarrow> (error + unit) \<times> world" where
  "unlink_all h dir [] w = (Inr (), w)"
| "unlink_all h dir (file # rest) w =
     then_do (unlink h (dir @ [file]) w) (\<lambda>u w'. unlink_all h dir rest w')"

fun pack_all ::
  "host \<Rightarrow> config \<Rightarrow> skill list \<Rightarrow> string list \<Rightarrow> world \<Rightarrow> (error + unit) \<times> world" where
  "pack_all h cfg [] repoPath w = (Inr (), w)"
| "pack_all h cfg (skill # rest) repoPath w =
     then_do (packSkill h cfg skill repoPath w) (\<lambda>sizeKB w'. pack_all h cfg rest repoPath w')"

fun write_contents ::
  "host \<Rightarrow> string list \<Rightarrow> skill list \<Rightarrow> world \<Rightarrow> (error + unit) \<times> world" where
  "write_contents h contentDir [] w = (Inr (), w)"
| "write_contents h contentDir (skill # rest) w =
     then_do (writeFile h (contentDir @ [skill_id skill @ ''.json''])
                (stringify_content h (content skill) (files skill)) w)
       (\<lambda>u w'. write_contents h contentDir rest w')"

text \<open>Cleaning the old downloads; a failing \<^verbatim>\<open>readdir\<close> counts as an empty listing.\<close>

definition clean_downloads :: "host \<Rightarrow> config \<Rightarrow> world \<Rightarrow> (error + unit) \<times> world" where
  "clean_downloads h cfg w =
     (let oldDownloads = (case readdir (fs w) (downloadsDir cfg) of
                            Inl e \<Rightarrow> []
                          | Inr entries \<Rightarrow> map fst entries)
      in unlink_all h (downloadsDir cfg) oldDownloads (emit (Log ''cleaning old downloads'') w))"

text \<open>The part of the try block after the test for zero skills.\<close>

definition publish ::
  "host \<Rightarrow> config \<Rightarrow> string list \<Rightarrow> skill list \<Rightarrow> world \<Rightarrow> (error + unit) \<times> world" where
  "publish h cfg repoPath skills w =
     then_do (pack_all h cfg skills repoPath (emit (Log ''packing skills'') w))
     (\<lambda>u w1. case generateIndex h cfg skills of
        Inl e \<Rightarrow> (Inl e, emit (Log ''generating index'') w1)
      | Inr index \<Rightarrow>
     then_do (writeFile h (outputPath cfg) (stringify_index h index)
                (emit (Log ''generating index'') w1))
     (\<lambda>u w2. then_do (ensureDir h (root_dir cfg @ [''src'', ''data'', ''contents''])
                        (emit (Log ''index saved'') w2))
     (\<lambda>u w3. then_do (write_contents h (root_dir cfg @ [''src'', ''data'', ''contents'']) skills w3)
     (\<lambda>u w4. let w5 = emit (Log ''statistics'') (emit (Log ''contents saved'') w4) in
        then_do (if repoPath = tempCloneDir cfg
                 then rm h (tempCloneDir cfg) (emit (Log ''removing temporary clone'') w5)
                 else (Inr (), w5))
     (\<lambda>u w6. (Inr (), emit (Log ''sync complete'') w6))))))"

text \<open>The try block of main: up to the repository path, and from the scan on.\<close>

definition clean_outputs :: "host \<Rightarrow> config \<Rightarrow> world \<Rightarrow> (error + unit) \<times> world" where
  "clean_outputs h cfg w =
     then_do (ensureDir h (butlast (outputPath cfg)) w)
     (\<lambda>u w1. then_do (ensureDir h (downloadsDir cfg) w1)
     (\<lambda>u w2. clean_downloads h cfg w2))"

definition prepare :: "host \<Rightarrow> config \<Rightarrow> world \<Rightarrow> (error + string list) \<times> world" where
  "prepare h cfg w = then_do (clean_outputs h cfg w) (\<lambda>u w3. getRepoPath h cfg w3)"

text \<open>The state after the scan has reported what it found.\<close>

definition scanned :: "event list \<Rightarrow> world \<Rightarrow> world" where
  "scanned evs w = w\<lparr> trace := trace w @ [Log ''scanning skills''] @ evs @ [Log ''skills found''] \<rparr>"

definition scan_and_publish ::
  "host \<Rightarrow> config \<Rightarrow> string list \<Rightarrow> world \<Rightarrow> (error + unit) \<times> world" where
  "scan_and_publish h cfg repoPath w =
     (case scanSkills h (fs w) repoPath of
        (Inl e, evs) \<Rightarrow> (Inl e, w\<lparr> trace := trace w @ [Log ''scanning skills''] @ evs \<rparr>)
      | (Inr skills, evs) \<Rightarrow>
          if skills = [] then (Inr (), emit (Warn ''no skills found'') (scanned evs w))
          else publish h cfg repoPath skills (scanned evs w))"

definition run :: "host \<Rightarrow> config \<Rightarrow> world \<Rightarrow> (error + unit) \<times> world" where
  "run h cfg w = then_do (prepare h cfg w) (scan_and_publish h cfg)"

text \<open>
  main: the exit status of the process and the final state. The process ends with status 0
  when main returns, and with status 1 through \<^verbatim>\<open>process.exit(1)\<close> in the catch block.
\<close>

definition main :: "host \<Rightarrow> config \<Rightarrow> world \<Rightarrow> nat \<times> world" where
  "main h cfg w =
     (case run h cfg (emit (Log ''sync started'') w) of
        (Inr u, w') \<Rightarrow> (0, w')
      | (Inl e, w') \<Rightarrow> (1, emit (Err ''sync failed'') w'))"

section \<open>Example inputs\<close>

text \<open>
  The two entities of the specification's scenario: \<^verbatim>\<open>auth-helper\<close> with front-matter
  tags only, and \<^verbatim>\<open>json-formatter\<close> with empty front-matter tags and per-entity JSON
  metadata.
\<close>

definition auth_helper_front :: jsval where
  "auth_helper_front =
     JObj [(''name'', JStr ''Auth Helper''), (''tags'', JArr [JStr ''security'']),
           (''version'', JStr ''2.1.0'')]"

definition json_formatter_front :: jsval where
  "json_formatter_front = JObj [(''tags'', JArr []), (''description'', JStr [])]"

definition json_formatter_json :: jsval where
  "json_formatter_json =
     JObj [(''name'', JStr ''json-formatter''), (''tags'', JArr [JStr ''text'', JStr ''tools'']),
           (''description'', JStr ''Formats JSON''), (''stars'', JNum 7),
           (''sourceUrl'', JStr ''https://example.org/json-formatter'')]"

definition json_formatter_index :: jsval where
  "json_formatter_index =
     JObj [(''name'', JStr ''json-formatter''), (''tags'', JArr [JStr ''misc'']),
           (''author'', JStr ''Bob''), (''updatedAt'', JStr ''2024-05-01'')]"

text \<open>A front matter whose author is the empty string.\<close>

definition blank_author_front :: jsval where
  "blank_author_front = JObj [(''author'', JStr []), (''tags'', JArr [JStr ''security''])]"

text \<open>Entities for tag aggregation; only their tags matter.\<close>

definition plain_skill :: "string \<Rightarrow> jsval \<Rightarrow> skill" where
  "plain_skill n tgs =
     \<lparr> skill_id = n, skill_name = JStr n, skill_path = n, description = JStr [],
       tags = tgs, version = JStr ''1.0.0'', author = JStr ''AI-Agent Team'',
       updatedAt = JStr ''2026-11-02'', stars = JNum 0, sourceUrl = JStr [], files = [],
       hasMultipleFiles = False, installCommand = ''pa-skills add '' @ n,
       downloadUrl = ''/downloads/'' @ n @ ''.zip'', content = [] \<rparr>"

definition demo_skills :: "skill list" where
  "demo_skills =
     [plain_skill ''auth-helper'' (JArr [JStr ''security'']),
      plain_skill ''json-formatter'' (JArr [JStr ''text'', JStr ''tools''])]"

text \<open>Tags with surrounding white space, and two blank ones (spaces; a no-break space).\<close>

definition spaced_skills :: "skill list" where
  "spaced_skills =
     [plain_skill ''a''
        (JArr [JStr ''tools'', JStr '' tools'', JStr ''tools'', JStr ''  '', JStr [CHR 0xA0]])]"

text \<open>Front matter whose tags hold a number, and the entity the scan builds from it.\<close>

definition numbered_front :: jsval where
  "numbered_front = JObj [(''tags'', JArr [JStr ''ok'', JNum 2024])]"

definition numbered_skill :: skill where
  "numbered_skill = plain_skill ''numbered'' (JArr [JStr ''ok'', JNum 2024])"

text \<open>
  A trim for concrete runs, on strings whose characters are the code points below 256: the
  white space of the language among them is tab, line feed, vertical tab, form feed,
  carriage return, space and no-break space.
\<close>

definition white_space :: "char \<Rightarrow> bool" where
  "white_space c =
     (c \<in> set [CHR 0x09, CHR 0x0A, CHR 0x0B, CHR 0x0C, CHR 0x0D, CHR '' '', CHR 0xA0])"

definition trim_latin1 :: "string \<Rightarrow> string" where
  "trim_latin1 s = rev (dropWhile white_space (rev (dropWhile white_space s)))"

text \<open>
  A collation for concrete runs: letters compare without regard to case first, a lower-case
  letter before its upper-case form on a tie, as the default collation of
  \<^verbatim>\<open>localeCompare\<close> orders strings of ASCII letters.
\<close>

definition collation_key :: "string \<Rightarrow> nat list \<times> nat list" where
  "collation_key s =
     (map (\<lambda>c. of_char c) (toLowerCase s),
      map (\<lambda>c. if CHR ''A'' \<le> c \<and> c \<le> CHR ''Z'' then 1 else 0) s)"

definition letter_collate :: "string \<Rightarrow> string \<Rightarrow> int" where
  "letter_collate a b =
     (if collation_key a < collation_key b then -1
      else if collation_key a = collation_key b then 0 else 1)"

text \<open>A host for concrete runs. Its parsers know the few texts of the examples.\<close>

definition demo_json :: "string \<Rightarrow> error + jsval" where
  "demo_json str =
     (case map_of
        [(''{json-formatter}'', json_formatter_json),
         (''{index}'', JObj [(''skills'', JArr [json_formatter_index])]),
         (''null'', JNull)] str of
        None \<Rightarrow> Inl SyntaxError
      | Some v \<Rightarrow> Inr v)"

definition demo_matter :: "string \<Rightarrow> error + jsval \<times> string" where
  "demo_matter str =
     (case map_of
        [(''auth-helper.md'', (auth_helper_front, ''Use it to sign in.'')),
         (''json-formatter.md'', (json_formatter_front, ''Formats JSON.''))] str of
        None \<Rightarrow> Inr (JObj [], str)
      | Some parsed \<Rightarrow> Inr parsed)"

definition demo_host :: host where
  "demo_host =
     \<lparr> json_parse = demo_json,
       matter = demo_matter,
       trim = trim_latin1,
       localeCompare = letter_collate,
       today = ''2026-11-02'',
       now = ''2026-11-02T00:00:00.000Z'',
       generateAsync = (\<lambda>z. ''PK''),
       stringify_index = (\<lambda>c. ''{}''),
       stringify_content = (\<lambda>c fl. c),
       git_clone = (\<lambda>url. Inl (Failure ''no network'')),
       denies_write = (\<lambda>p. False) \<rparr>"

text \<open>An entity directory whose files are listed in the order descriptor, lower case, upper case.\<close>

definition listed_dir :: node where
  "listed_dir = Dir [(''SKILL.md'', File ''---''), (''a.md'', File ''x''), (''B.md'', File ''y'')]"

text \<open>
  A repository with the two entities, a combined index and per-entity JSON for
  \<^verbatim>\<open>json-formatter\<close>; a site with one stale download; and the configuration of a
  local run.
\<close>

definition json_formatter_dir :: node where
  "json_formatter_dir =
     Dir [(''SKILL.md'', File ''json-formatter.md''),
          (''lib'', Dir [(''format.js'', File ''code''), (''empty'', Dir [])])]"

definition demo_repo :: node where
  "demo_repo =
     Dir [(''skills-collection'',
             Dir [(''auth-helper'', Dir [(''SKILL.md'', File ''auth-helper.md'')]),
                  (''json-formatter'', json_formatter_dir)]),
          (''skills.json'', File ''{index}''),
          (''skills-json'', Dir [(''json-formatter.json'', File ''{json-formatter}'')])]"

definition demo_site :: node where
  "demo_site = Dir [(''public'', Dir [(''downloads'', Dir [(''old.zip'', File ''PK'')])])]"

definition demo_config :: config where
  "demo_config =
     \<lparr> root_dir = [''site''],
       localRepoPath = [''repo''],
       remoteRepoUrl = None,
       githubToken = None,
       outputPath = [''site'', ''src'', ''data'', ''skills.json''],
       downloadsDir = [''site'', ''public'', ''downloads''],
       tempCloneDir = [''site'', ''.temp-skills-repo''] \<rparr>"

definition demo_world :: world where
  "demo_world = \<lparr> fs = Dir [(''repo'', demo_repo), (''site'', demo_site)], trace = [] \<rparr>"

text \<open>
  A repository whose metadata sources are broken (an unparsable index, an unreadable
  per-entity directory), one without a collection directory, and a world without any
  repository.
\<close>

definition broken_meta_repo :: node where
  "broken_meta_repo =
     Dir [(''skills-collection'',
             Dir [(''auth-helper'', Dir [(''SKILL.md'', File ''auth-helper.md'')])]),
          (''skills.json'', File ''not json''),
          (''skills-json'', BadDir)]"

definition empty_repo_world :: world where
  "empty_repo_world = \<lparr> fs = Dir [(''repo'', Dir []), (''site'', demo_site)], trace = [] \<rparr>"

definition no_repo_world :: world where
  "no_repo_world = \<lparr> fs = Dir [(''site'', demo_site)], trace = [] \<rparr>"

text \<open>
  A world whose second entity holds a file the process may not read; hosts that refuse to
  write the archive of the second entity, the index file, and the content file of the
  second entity; and a configuration that names a remote repository and a token.
\<close>

definition locked_world :: world where
  "locked_world =
     \<lparr> fs = Dir [(''repo'',
                    Dir [(''skills-collection'',
                            Dir [(''auth-helper'', Dir [(''SKILL.md'', File ''auth-helper.md'')]),
                                 (''locked'',
                                    Dir [(''SKILL.md'', File ''auth-helper.md''),
                                         (''secret.bin'', BadFile)])])]),
                  (''site'', demo_site)],
       trace = [] \<rparr>"

definition no_archive_host :: host where
  "no_archive_host =
     demo_host\<lparr> denies_write :=
       (\<lambda>p. p = [''site'', ''public'', ''downloads'', ''json-formatter.zip'']) \<rparr>"

definition readonly_host :: host where
  "readonly_host =
     demo_host\<lparr> denies_write := (\<lambda>p. p = [''site'', ''src'', ''data'', ''skills.json'']) \<rparr>"

definition no_content_host :: host where
  "no_content_host =
     demo_host\<lparr> denies_write :=
       (\<lambda>p. p = [''site'', ''src'', ''data'', ''contents'', ''json-formatter.json'']) \<rparr>"

definition remote_config :: config where
  "remote_config =
     demo_config\<lparr> remoteRepoUrl := Some ''https://github.com/acme/skills'',
                  githubToken := Some ''t0ken'' \<rparr>"

section \<open>Descriptions used in the properties\<close>

subsection \<open>Tag aggregation, described\<close>

text \<open>
  The tags of one list that are counted: the strings that are neither empty nor empty after
  trimming, as written.
\<close>

fun counted :: "host \<Rightarrow> jsval list \<Rightarrow> string list" where
  "counted h [] = []"
| "counted h (JStr t # rest) =
     (if t \<noteq> [] \<and> trim h t \<noteq> [] then t # counted h rest else counted h rest)"
| "counted h (v # rest) = counted h rest"

definition counted_tags :: "host \<Rightarrow> skill list \<Rightarrow> string list" where
  "counted_tags h skills =
     concat (map (\<lambda>s. case tags s of JArr ts \<Rightarrow> counted h ts | _ \<Rightarrow> []) skills)"

text \<open>The elements of a list in the order of their first occurrence.\<close>

fun first_seen_from :: "'a set \<Rightarrow> 'a list \<Rightarrow> 'a list" where
  "first_seen_from seen [] = []"
| "first_seen_from seen (x # xs) =
     (if x \<in> seen then first_seen_from seen xs else x # first_seen_from (insert x seen) xs)"

definition first_seen :: "'a list \<Rightarrow> 'a list" where
  "first_seen xs = first_seen_from {} xs"

text \<open>A tag the loop can process: a string, or a falsy value (which it skips).\<close>

fun tag_ok :: "jsval \<Rightarrow> bool" where
  "tag_ok (JStr t) = True"
| "tag_ok v = (\<not> truthy v)"

definition tags_ok :: "skill \<Rightarrow> bool" where
  "tags_ok s = (case tags s of JArr ts \<Rightarrow> list_all tag_ok ts | _ \<Rightarrow> True)"

text \<open>The counting loop on the counted strings alone.\<close>

fun tally :: "string list \<Rightarrow> (string, nat) jsmap \<Rightarrow> (string, nat) jsmap" where
  "tally [] m = m"
| "tally (t # ts) m = tally ts (map_set t (count_of m t + 1) m)"

text \<open>
  A comparator orders consistently when ``strictly before'' is asymmetric and negatively
  transitive. A list is in order when no element is strictly before an earlier one.
\<close>

definition strict_weak :: "('a \<Rightarrow> 'a \<Rightarrow> int) \<Rightarrow> bool" where
  "strict_weak cmp \<longleftrightarrow>
     (\<forall>a b. cmp a b < 0 \<longrightarrow> \<not> cmp b a < 0) \<and>
     (\<forall>a b c. cmp a b < 0 \<longrightarrow> cmp a c < 0 \<or> cmp c b < 0)"

abbreviation in_order :: "('a \<Rightarrow> 'a \<Rightarrow> int) \<Rightarrow> 'a list \<Rightarrow> bool" where
  "in_order cmp xs \<equiv> sorted_wrt (\<lambda>a b. \<not> cmp b a < 0) xs"

subsection \<open>Archives, described\<close>






fun kind :: "node \<Rightarrow> zentry option" where
  "kind (File c) = Some (ZFile c)"
| "kind (Dir es) = Some ZFolder"
| "kind n = None"

definition found :: "node \<Rightarrow> string list \<Rightarrow> zentry option" where
  "found t p = (case resolve t p of Inl e \<Rightarrow> None | Inr n \<Rightarrow> kind n)"






definition under :: "string \<Rightarrow> (string \<times> zentry) list \<Rightarrow> (string \<times> zentry) list" where
  "under root kvs = map (\<lambda>(k, e). (root @ k, e)) kvs"




subsection \<open>Directories that cannot be packed\<close>

text \<open>A node is readable when neither it nor anything below it is closed to the process.\<close>

fun readable :: "node \<Rightarrow> bool"
  and readable_entries :: "(string \<times> node) list \<Rightarrow> bool"
where
  "readable (File c) = True"
| "readable BadFile = False"
| "readable BadDir = False"
| "readable (Dir es) = readable_entries es"
| "readable_entries [] = True"
| "readable_entries ((k, n) # es) = (readable n \<and> readable_entries es)"

subsection \<open>Reading the sources\<close>

text \<open>
  The value a source supplies for a field: \<^verbatim>\<open>undefined\<close> when the source has no such
  property.
\<close>

definition field :: "jsval \<Rightarrow> string \<Rightarrow> jsval" where
  "field v k = (case get_prop v k of Inl e \<Rightarrow> JUndefined | Inr x \<Rightarrow> x)"

text \<open>The first truthy value of a precedence list, else the default.\<close>

fun first_truthy :: "jsval list \<Rightarrow> jsval \<Rightarrow> jsval" where
  "first_truthy [] d = d"
| "first_truthy (v # vs) d = (if truthy v then v else first_truthy vs d)"

text \<open>The first value that is present at all (not \<^verbatim>\<open>undefined\<close>), else the default.\<close>

fun first_present :: "jsval list \<Rightarrow> jsval \<Rightarrow> jsval" where
  "first_present [] d = d"
| "first_present (v # vs) d = (if v \<noteq> JUndefined then v else first_present vs d)"

text \<open>
  The tags rule in the words of the specification: the first non-empty array among the
  per-entity JSON tags, the combined-index tags and the front-matter tags; failing that the
  front-matter tags when they are an array, else the empty list.
\<close>

definition tags_by_precedence :: "jsval \<Rightarrow> jsval \<Rightarrow> jsval \<Rightarrow> jsval" where
  "tags_by_precedence jt it ft =
     (case find nonempty_array [jt, it, ft] of
        Some a \<Rightarrow> a
      | None \<Rightarrow> if isArray ft then ft else JArr [])"

section \<open>Properties\<close>

subsection \<open>What make_skill puts into each field\<close>

lemma or_else_Inr:
  "or_else a b = Inr v \<Longrightarrow>
     (\<exists>x. a = Inr x \<and> (if truthy x then v = x else b = Inr v))"
  by (auto simp: or_else_def split: sum.splits if_splits)

lemma or_else_field:
  "or_else (get_prop src k) b = Inr v \<Longrightarrow>
     get_prop src k = Inr (field src k) \<and>
     (if truthy (field src k) then v = field src k else b = Inr v)"
  by (auto simp: or_else_def field_def split: sum.splits if_splits)

lemma make_skill_tags:
  "make_skill date n data body idx js fl = Inr s \<Longrightarrow> merge_tags js idx data = Inr (tags s)"
  by (auto simp: make_skill_def split: sum.splits)

lemma make_skill_description:
  "make_skill date n data body idx js fl = Inr s \<Longrightarrow>
     or_else (get_prop data ''description'')
       (or_else (get_prop js ''description'')
         (or_else (get_prop idx ''description'') (Inr (JStr [])))) = Inr (description s)"
  by (auto simp: make_skill_def split: sum.splits)

lemma make_skill_version:
  "make_skill date n data body idx js fl = Inr s \<Longrightarrow>
     or_else (get_prop data ''version'')
       (or_else (get_prop js ''version'')
         (or_else (get_prop idx ''version'') (Inr (JStr ''1.0.0'')))) = Inr (version s)"
  by (auto simp: make_skill_def split: sum.splits)

lemma make_skill_author:
  "make_skill date n data body idx js fl = Inr s \<Longrightarrow>
     or_else (get_prop data ''author'')
       (or_else (get_prop js ''author'') (Inr (JStr ''AI-Agent Team''))) = Inr (author s)"
  by (auto simp: make_skill_def split: sum.splits)

lemma make_skill_updatedAt:
  "make_skill date n data body idx js fl = Inr s \<Longrightarrow>
     or_else (get_prop data ''updatedAt'')
       (or_else (get_prop js ''updatedAt'') (Inr (JStr date))) = Inr (updatedAt s)"
  by (auto simp: make_skill_def split: sum.splits)

lemma make_skill_stars:
  "make_skill date n data body idx js fl = Inr s \<Longrightarrow>
     or_else (get_prop js ''stars'') (Inr (JNum 0)) = Inr (stars s)"
  by (auto simp: make_skill_def split: sum.splits)

lemma make_skill_sourceUrl:
  "make_skill date n data body idx js fl = Inr s \<Longrightarrow>
     or_else (get_prop js ''sourceUrl'') (Inr (JStr [])) = Inr (sourceUrl s)"
  by (auto simp: make_skill_def split: sum.splits)

lemma nonempty_array_isArray: "nonempty_array v \<Longrightarrow> isArray v"
  by (cases v) auto

lemma merge_tags_precedence:
  "merge_tags js idx data = Inr t \<Longrightarrow>
     t = tags_by_precedence (field js ''tags'') (field idx ''tags'') (field data ''tags'')"
  by (auto simp: merge_tags_def tags_by_precedence_def field_def
           dest: nonempty_array_isArray split: sum.splits if_splits)


subsection \<open>Tags\<close>

text \<open>
  C3. For every entity the script builds, the tags are the first non-empty array among the
  per-entity JSON tags, the combined-index tags and the front-matter tags, in this order;
  when none is a non-empty array they are the front-matter tags if these are an array and
  the empty list otherwise. A non-empty per-entity JSON array is the result whatever the
  other sources hold, and the result is always one source's array as a whole (or the empty
  list), never a mixture.
\<close>

theorem tags_first_nonempty_source:
  assumes "make_skill date n data body idx js fl = Inr s"
  shows "tags s = tags_by_precedence (field js ''tags'') (field idx ''tags'') (field data ''tags'')
       \<and> (nonempty_array (field js ''tags'') \<longrightarrow> tags s = field js ''tags'')
       \<and> tags s \<in> {field js ''tags'', field idx ''tags'', field data ''tags'', JArr []}"
proof -
  let ?t = "tags_by_precedence (field js ''tags'') (field idx ''tags'') (field data ''tags'')"
  have eq: "tags s = ?t"
    using merge_tags_precedence [OF make_skill_tags [OF assms]] .
  have win: "nonempty_array (field js ''tags'') \<Longrightarrow> ?t = field js ''tags''"
    by (simp add: tags_by_precedence_def)
  have whole: "?t \<in> {field js ''tags'', field idx ''tags'', field data ''tags'', JArr []}"
    by (simp add: tags_by_precedence_def)
  show ?thesis
    using eq win whole by simp
qed

theorem tags_first_nonempty_source_witness:
  "\<exists>s. make_skill ''2026-11-02'' ''json-formatter'' json_formatter_front ''body''
          json_formatter_index json_formatter_json [] = Inr s
       \<and> tags s = JArr [JStr ''text'', JStr ''tools'']"
proof -
  obtain s where built:
    "make_skill ''2026-11-02'' ''json-formatter'' json_formatter_front ''body''
       json_formatter_index json_formatter_json [] = Inr s"
    by (simp add: make_skill_def merge_tags_def or_else_def json_formatter_front_def
          json_formatter_index_def json_formatter_json_def)
  have "tags s = tags_by_precedence (field json_formatter_json ''tags'')
                   (field json_formatter_index ''tags'') (field json_formatter_front ''tags'')"
    using tags_first_nonempty_source [OF built] by simp
  then have "tags s = JArr [JStr ''text'', JStr ''tools'']"
    by (simp add: tags_by_precedence_def field_def json_formatter_front_def
          json_formatter_index_def json_formatter_json_def)
  with built show ?thesis by blast
qed

subsection \<open>Stars and source URL\<close>

text \<open>
  C7. For every entity the script builds, \<open>stars\<close> and \<open>sourceUrl\<close> are determined by the
  per-entity JSON metadata alone: any other entity built over the same per-entity JSON
  record, whatever its front matter and combined-index record, has the same two values.
  They are 0 and the empty string when the per-entity JSON does not supply them.
\<close>

theorem stars_sourceUrl_from_json_only:
  assumes "make_skill date n data body idx js fl = Inr s"
  shows "stars s = first_truthy [field js ''stars''] (JNum 0)
       \<and> sourceUrl s = first_truthy [field js ''sourceUrl''] (JStr [])
       \<and> (\<forall>date' n' data' body' idx' fl' s'.
             make_skill date' n' data' body' idx' js fl' = Inr s' \<longrightarrow>
             stars s' = stars s \<and> sourceUrl s' = sourceUrl s)
       \<and> (field js ''stars'' = JUndefined \<longrightarrow> stars s = JNum 0)
       \<and> (field js ''sourceUrl'' = JUndefined \<longrightarrow> sourceUrl s = JStr [])"
proof -
  have st: "stars s' = first_truthy [field js ''stars''] (JNum 0)"
    if "make_skill date' n' data' body' idx' js fl' = Inr s'"
    for date' n' data' body' idx' fl' s'
    using or_else_field [OF make_skill_stars [OF that]] by (simp split: if_splits)
  have su: "sourceUrl s' = first_truthy [field js ''sourceUrl''] (JStr [])"
    if "make_skill date' n' data' body' idx' js fl' = Inr s'"
    for date' n' data' body' idx' fl' s'
    using or_else_field [OF make_skill_sourceUrl [OF that]] by (simp split: if_splits)
  have same: "\<forall>date' n' data' body' idx' fl' s'.
             make_skill date' n' data' body' idx' js fl' = Inr s' \<longrightarrow>
             stars s' = stars s \<and> sourceUrl s' = sourceUrl s"
    using st su assms by metis
  show ?thesis
    using st [OF assms] su [OF assms] same by simp
qed

theorem stars_sourceUrl_from_json_only_witness:
  "\<exists>s. make_skill ''2026-11-02'' ''json-formatter'' json_formatter_front ''body''
          json_formatter_index json_formatter_json [] = Inr s
       \<and> stars s = JNum 7 \<and> sourceUrl s = JStr ''https://example.org/json-formatter''"
proof -
  obtain s where built:
    "make_skill ''2026-11-02'' ''json-formatter'' json_formatter_front ''body''
       json_formatter_index json_formatter_json [] = Inr s"
    by (simp add: make_skill_def merge_tags_def or_else_def json_formatter_front_def
          json_formatter_index_def json_formatter_json_def)
  have "stars s = first_truthy [field json_formatter_json ''stars''] (JNum 0)
      \<and> sourceUrl s = first_truthy [field json_formatter_json ''sourceUrl''] (JStr [])"
    using stars_sourceUrl_from_json_only [OF built] by simp
  then have "stars s = JNum 7 \<and> sourceUrl s = JStr ''https://example.org/json-formatter''"
    by (simp add: field_def json_formatter_json_def)
  with built show ?thesis by blast
qed


subsection \<open>Scalar fields\<close>

lemma make_skill_scalars:
  assumes "make_skill date n data body idx js fl = Inr s"
  shows "description s =
           first_truthy [field data ''description'', field js ''description'',
                         field idx ''description''] (JStr [])"
    and "version s =
           first_truthy [field data ''version'', field js ''version'',
                         field idx ''version''] (JStr ''1.0.0'')"
    and "author s =
           first_truthy [field data ''author'', field js ''author''] (JStr ''AI-Agent Team'')"
    and "updatedAt s =
           first_truthy [field data ''updatedAt'', field js ''updatedAt''] (JStr date)"
proof -
  note d = or_else_field [OF make_skill_description [OF assms]]
  show "description s =
           first_truthy [field data ''description'', field js ''description'',
                         field idx ''description''] (JStr [])"
  proof (cases "truthy (field data ''description'')")
    case True
    with d show ?thesis by simp
  next
    case False
    with d have j: "or_else (get_prop js ''description'')
         (or_else (get_prop idx ''description'') (Inr (JStr []))) = Inr (description s)"
      by simp
    show ?thesis
    proof (cases "truthy (field js ''description'')")
      case True
      with False or_else_field [OF j] show ?thesis by simp
    next
      case jf: False
      with or_else_field [OF j]
      have "or_else (get_prop idx ''description'') (Inr (JStr [])) = Inr (description s)"
        by simp
      from or_else_field [OF this] False jf show ?thesis
        by (simp split: if_splits)
    qed
  qed
next
  note d = or_else_field [OF make_skill_version [OF assms]]
  show "version s =
           first_truthy [field data ''version'', field js ''version'',
                         field idx ''version''] (JStr ''1.0.0'')"
  proof (cases "truthy (field data ''version'')")
    case True
    with d show ?thesis by simp
  next
    case False
    with d have j: "or_else (get_prop js ''version'')
         (or_else (get_prop idx ''version'') (Inr (JStr ''1.0.0''))) = Inr (version s)"
      by simp
    show ?thesis
    proof (cases "truthy (field js ''version'')")
      case True
      with False or_else_field [OF j] show ?thesis by simp
    next
      case jf: False
      with or_else_field [OF j]
      have "or_else (get_prop idx ''version'') (Inr (JStr ''1.0.0'')) = Inr (version s)"
        by simp
      from or_else_field [OF this] False jf show ?thesis
        by (simp split: if_splits)
    qed
  qed
next
  note d = or_else_field [OF make_skill_author [OF assms]]
  show "author s =
           first_truthy [field data ''author'', field js ''author''] (JStr ''AI-Agent Team'')"
  proof (cases "truthy (field data ''author'')")
    case True
    with d show ?thesis by simp
  next
    case False
    with d have "or_else (get_prop js ''author'') (Inr (JStr ''AI-Agent Team'')) = Inr (author s)"
      by simp
    from or_else_field [OF this] False show ?thesis
      by (simp split: if_splits)
  qed
next
  note d = or_else_field [OF make_skill_updatedAt [OF assms]]
  show "updatedAt s =
           first_truthy [field data ''updatedAt'', field js ''updatedAt''] (JStr date)"
  proof (cases "truthy (field data ''updatedAt'')")
    case True
    with d show ?thesis by simp
  next
    case False
    with d have "or_else (get_prop js ''updatedAt'') (Inr (JStr date)) = Inr (updatedAt s)"
      by simp
    from or_else_field [OF this] False show ?thesis
      by (simp split: if_splits)
  qed
qed

text \<open>
  C1, as the code has it. Each scalar field is the first truthy value among the sources the
  code consults for it, else the built-in default: front matter, per-entity JSON and combined
  index for \<open>description\<close> and \<open>version\<close>; front matter and per-entity JSON only for
  \<open>author\<close> and \<open>updatedAt\<close>. A front-matter version ''2.1.0'' is the entity's version.
\<close>

theorem scalar_fields_precedence:
  assumes "make_skill date n data body idx js fl = Inr s"
  shows "description s =
           first_truthy [field data ''description'', field js ''description'',
                         field idx ''description''] (JStr [])
       \<and> version s =
           first_truthy [field data ''version'', field js ''version'',
                         field idx ''version''] (JStr ''1.0.0'')
       \<and> author s =
           first_truthy [field data ''author'', field js ''author''] (JStr ''AI-Agent Team'')
       \<and> updatedAt s =
           first_truthy [field data ''updatedAt'', field js ''updatedAt''] (JStr date)
       \<and> (field data ''version'' = JStr ''2.1.0'' \<longrightarrow> version s = JStr ''2.1.0'')"
  using make_skill_scalars [OF assms] by simp

theorem scalar_fields_precedence_witness:
  "\<exists>s. make_skill ''2026-11-02'' ''auth-helper'' auth_helper_front ''body''
          (JObj []) (JObj []) [] = Inr s
       \<and> version s = JStr ''2.1.0'' \<and> author s = JStr ''AI-Agent Team''
       \<and> updatedAt s = JStr ''2026-11-02'' \<and> description s = JStr []"
proof -
  obtain s where built:
    "make_skill ''2026-11-02'' ''auth-helper'' auth_helper_front ''body''
       (JObj []) (JObj []) [] = Inr s"
    by (simp add: make_skill_def merge_tags_def or_else_def auth_helper_front_def)
  have "version s = JStr ''2.1.0'' \<and> author s = JStr ''AI-Agent Team''
       \<and> updatedAt s = JStr ''2026-11-02'' \<and> description s = JStr []"
    using scalar_fields_precedence [OF built]
    by (simp add: field_def auth_helper_front_def)
  with built show ?thesis by blast
qed

text \<open>
  C1 as stated fails twice. With no author in the front matter or the per-entity JSON and
  author ''Bob'' in the combined index, the entity's author is the default, not ''Bob''. With
  an empty-string description in the front matter and a description in the per-entity JSON,
  the entity's description is the JSON one, although the front-matter value is present.
\<close>

theorem scalar_fields_precedence_counterexample:
  "map_sum id author
     (make_skill ''2026-11-02'' ''json-formatter'' json_formatter_front ''body''
        json_formatter_index json_formatter_json []) = Inr (JStr ''AI-Agent Team'')
   \<and> first_present [field json_formatter_front ''author'', field json_formatter_json ''author'',
                     field json_formatter_index ''author''] (JStr ''AI-Agent Team'') = JStr ''Bob''
   \<and> map_sum id description
     (make_skill ''2026-11-02'' ''json-formatter'' json_formatter_front ''body''
        json_formatter_index json_formatter_json []) = Inr (JStr ''Formats JSON'')
   \<and> first_present [field json_formatter_front ''description'',
                     field json_formatter_json ''description'',
                     field json_formatter_index ''description''] (JStr []) = JStr []"
  by (simp add: make_skill_def merge_tags_def or_else_def field_def json_formatter_front_def
        json_formatter_index_def json_formatter_json_def)


lemma first_truthy_not_blank:
  "d \<noteq> JStr [] \<Longrightarrow> first_truthy vs d \<noteq> JStr []"
  by (induction vs) auto

text \<open>
  C9, as the code has it. A falsy front-matter value of a scalar field counts as absent: the
  field is then resolved from the remaining sources the code consults for it, which are the
  per-entity JSON, the combined index and the default for \<open>description\<close> and \<open>version\<close>, and
  the per-entity JSON and the default for \<open>author\<close> and \<open>updatedAt\<close>. An empty string never
  wins over a truthy value of a consulted source: the description is empty only when all
  three sources are falsy, and the other three fields are never empty.
\<close>

theorem falsy_front_matter_falls_through:
  assumes "make_skill date n data body idx js fl = Inr s"
  shows "(\<not> truthy (field data ''description'') \<longrightarrow>
            description s =
              first_truthy [field js ''description'', field idx ''description''] (JStr []))
       \<and> (\<not> truthy (field data ''version'') \<longrightarrow>
            version s = first_truthy [field js ''version'', field idx ''version''] (JStr ''1.0.0''))
       \<and> (\<not> truthy (field data ''author'') \<longrightarrow>
            author s = first_truthy [field js ''author''] (JStr ''AI-Agent Team''))
       \<and> (\<not> truthy (field data ''updatedAt'') \<longrightarrow>
            updatedAt s = first_truthy [field js ''updatedAt''] (JStr date))
       \<and> (description s = JStr [] \<longrightarrow>
            \<not> truthy (field data ''description'') \<and> \<not> truthy (field js ''description'')
            \<and> \<not> truthy (field idx ''description''))
       \<and> version s \<noteq> JStr [] \<and> author s \<noteq> JStr []
       \<and> (date \<noteq> [] \<longrightarrow> updatedAt s \<noteq> JStr [])"
proof -
  note sc = make_skill_scalars [OF assms]
  have d: "\<not> truthy (field data ''description'') \<longrightarrow>
            description s =
              first_truthy [field js ''description'', field idx ''description''] (JStr [])"
    using sc(1) by simp
  have v: "\<not> truthy (field data ''version'') \<longrightarrow>
            version s = first_truthy [field js ''version'', field idx ''version''] (JStr ''1.0.0'')"
    using sc(2) by simp
  have a: "\<not> truthy (field data ''author'') \<longrightarrow>
            author s = first_truthy [field js ''author''] (JStr ''AI-Agent Team'')"
    using sc(3) by simp
  have u: "\<not> truthy (field data ''updatedAt'') \<longrightarrow>
            updatedAt s = first_truthy [field js ''updatedAt''] (JStr date)"
    using sc(4) by simp
  have e: "description s = JStr [] \<longrightarrow>
            \<not> truthy (field data ''description'') \<and> \<not> truthy (field js ''description'')
            \<and> \<not> truthy (field idx ''description'')"
    using sc(1) by (auto split: if_splits)
  have nv: "version s \<noteq> JStr []"
    unfolding sc(2) by (rule first_truthy_not_blank) simp
  have na: "author s \<noteq> JStr []"
    unfolding sc(3) by (rule first_truthy_not_blank) simp
  have nu: "date \<noteq> [] \<longrightarrow> updatedAt s \<noteq> JStr []"
  proof
    assume "date \<noteq> []"
    then have "JStr date \<noteq> JStr []" by simp
    then show "updatedAt s \<noteq> JStr []"
      unfolding sc(4) by (rule first_truthy_not_blank)
  qed
  show ?thesis
    using d v a u e nv na nu by blast
qed

theorem falsy_front_matter_falls_through_witness:
  "\<exists>s. make_skill ''2026-11-02'' ''json-formatter'' json_formatter_front ''body''
          json_formatter_index json_formatter_json [] = Inr s
       \<and> \<not> truthy (field json_formatter_front ''description'')
       \<and> description s = JStr ''Formats JSON''
       \<and> updatedAt s = JStr ''2026-11-02''"
proof -
  obtain s where built:
    "make_skill ''2026-11-02'' ''json-formatter'' json_formatter_front ''body''
       json_formatter_index json_formatter_json [] = Inr s"
    by (simp add: make_skill_def merge_tags_def or_else_def json_formatter_front_def
          json_formatter_index_def json_formatter_json_def)
  have falsy: "\<not> truthy (field json_formatter_front ''description'')"
    and falsy': "\<not> truthy (field json_formatter_front ''updatedAt'')"
    by (simp_all add: field_def json_formatter_front_def)
  have "description s =
          first_truthy [field json_formatter_json ''description'',
                        field json_formatter_index ''description''] (JStr [])
      \<and> updatedAt s = first_truthy [field json_formatter_json ''updatedAt''] (JStr ''2026-11-02'')"
    using falsy_front_matter_falls_through [OF built] falsy falsy' by blast
  then have "description s = JStr ''Formats JSON'' \<and> updatedAt s = JStr ''2026-11-02''"
    by (simp add: field_def json_formatter_index_def json_formatter_json_def)
  with built falsy show ?thesis by blast
qed

text \<open>
  C9 as stated names the combined index as the source after the per-entity JSON for every
  scalar field. With an empty-string author in the front matter, none in the per-entity JSON
  and ''Bob'' in the combined index, the entity's author is the default, not ''Bob''.
\<close>

theorem falsy_front_matter_falls_through_counterexample:
  "\<not> truthy (field blank_author_front ''author'')
   \<and> map_sum id author
       (make_skill ''2026-11-02'' ''json-formatter'' blank_author_front ''body''
          json_formatter_index (JObj []) []) = Inr (JStr ''AI-Agent Team'')
   \<and> first_truthy [field (JObj []) ''author'', field json_formatter_index ''author'']
        (JStr ''AI-Agent Team'') = JStr ''Bob''"
  by (simp add: make_skill_def merge_tags_def or_else_def field_def blank_author_front_def
        json_formatter_index_def)


subsection \<open>Counting\<close>

lemma count_tags_tally:
  "list_all tag_ok ts \<Longrightarrow> count_tags h ts m = Inr (tally (counted h ts) m)"
proof (induction ts arbitrary: m)
  case Nil show ?case by simp
next
  case (Cons v ts)
  then show ?case by (cases v) auto
qed

lemma count_tags_Inr:
  "count_tags h ts m = Inr m' \<Longrightarrow> m' = tally (counted h ts) m"
proof (induction ts arbitrary: m)
  case Nil then show ?case by simp
next
  case (Cons v ts)
  then show ?case by (cases v) (auto split: if_splits)
qed

lemma tally_append: "tally (xs @ ys) m = tally ys (tally xs m)"
  by (induction xs arbitrary: m) auto

lemma count_skills_Inr:
  "count_skills h ss m = Inr m' \<Longrightarrow> m' = tally (counted_tags h ss) m"
proof (induction ss arbitrary: m)
  case Nil then show ?case by (simp add: counted_tags_def)
next
  case (Cons s ss)
  show ?case
  proof (cases "tags s")
    case (JArr ts)
    with Cons.prems obtain m1 where a: "count_tags h ts m = Inr m1" and b: "count_skills h ss m1 = Inr m'"
      by (auto split: sum.splits)
    from Cons.IH [OF b] count_tags_Inr [OF a] JArr show ?thesis
      by (simp add: counted_tags_def tally_append)
  qed (use Cons in \<open>auto simp: counted_tags_def\<close>)
qed

lemma count_skills_total:
  "list_all tags_ok ss \<Longrightarrow> \<exists>m'. count_skills h ss m = Inr m'"
proof (induction ss arbitrary: m)
  case Nil then show ?case by simp
next
  case (Cons s ss)
  show ?case
  proof (cases "tags s")
    case (JArr ts)
    with Cons.prems have "list_all tag_ok ts" by (simp add: tags_ok_def)
    from count_tags_tally [OF this] JArr Cons show ?thesis by simp
  qed (use Cons in auto)
qed

lemma keys_map_set:
  "map fst (map_set k v m) = (if k \<in> fst ` set m then map fst m else map fst m @ [k])"
  by (induction m) force+

lemma map_of_map_set: "map_of (map_set k v m) = (map_of m)(k \<mapsto> v)"
  by (induction m) (auto simp: fun_eq_iff)

lemma keys_tally:
  "map fst (tally ts m) = map fst m @ first_seen_from (fst ` set m) ts"
proof (induction ts arbitrary: m)
  case Nil show ?case by simp
next
  case (Cons t ts)
  have "set (map fst (map_set t v m)) = insert t (fst ` set m)" for v
    unfolding keys_map_set by auto
  then have set_eq: "fst ` set (map_set t v m) = insert t (fst ` set m)" for v
    by simp
  show ?case
    by (simp add: Cons.IH keys_map_set set_eq insert_absorb)
qed

lemma set_first_seen_from: "set (first_seen_from S xs) = set xs - S"
  by (induction xs arbitrary: S) auto

lemma distinct_first_seen_from: "distinct (first_seen_from S xs)"
  by (induction xs arbitrary: S) (auto simp: set_first_seen_from)

lemma count_of_tally: "count_of (tally ts m) k = count_of m k + count_list ts k"
  by (induction ts arbitrary: m) (auto simp: count_of_def map_of_map_set)

lemma tally_entries:
  assumes "(k, c) \<in> set (tally ts [])"
  shows "c = count_list ts k" and "k \<in> set ts"
proof -
  have keys: "map fst (tally ts []) = first_seen ts"
    using keys_tally [of ts "[]"] by (simp add: first_seen_def)
  then have "distinct (map fst (tally ts []))"
    by (simp add: first_seen_def distinct_first_seen_from)
  with assms have "map_of (tally ts []) k = Some c" by simp
  then have "count_of (tally ts []) k = c" by (simp add: count_of_def)
  moreover have "count_of (tally ts []) k = count_list ts k"
    by (simp add: count_of_tally) (simp add: count_of_def)
  ultimately show "c = count_list ts k" by simp
  from assms have "k \<in> set (map fst (tally ts []))" by force
  then show "k \<in> set ts" by (simp add: keys first_seen_def set_first_seen_from)
qed

subsection \<open>Sorting\<close>

lemma set_insert_by [simp]: "set (insert_by cmp x ys) = insert x (set ys)"
  by (induction ys) auto

lemma mset_insert_by [simp]: "mset (insert_by cmp x ys) = add_mset x (mset ys)"
  by (induction ys) auto

lemma mset_foldl_insert_by:
  "mset (foldl (\<lambda>acc x. insert_by cmp x acc) acc xs) = mset acc + mset xs"
  by (induction xs arbitrary: acc) auto

lemma mset_array_sort [simp]: "mset (array_sort cmp xs) = mset xs"
  by (simp add: array_sort_def mset_foldl_insert_by)

lemma in_order_insert_by:
  assumes sw: "strict_weak cmp" and "in_order cmp ys"
  shows "in_order cmp (insert_by cmp x ys)"
  using assms(2)
proof (induction ys)
  case Nil show ?case by simp
next
  case (Cons y ys)
  show ?case
  proof (cases "cmp x y < 0")
    case True
    have "\<not> cmp z x < 0" if "z \<in> set (y # ys)" for z
    proof
      assume zx: "cmp z x < 0"
      from that Cons.prems have "z = y \<or> \<not> cmp z y < 0" by auto
      moreover from sw True have "\<not> cmp y x < 0" by (auto simp: strict_weak_def)
      moreover from sw zx have "cmp z y < 0 \<or> cmp y x < 0"
        unfolding strict_weak_def by blast
      ultimately show False using zx by auto
    qed
    with True Cons.prems show ?thesis by auto
  next
    case False
    with Cons show ?thesis by auto
  qed
qed

lemma in_order_foldl:
  "strict_weak cmp \<Longrightarrow> in_order cmp acc \<Longrightarrow>
     in_order cmp (foldl (\<lambda>acc x. insert_by cmp x acc) acc xs)"
  by (induction xs arbitrary: acc) (auto simp: in_order_insert_by)

lemma in_order_array_sort: "strict_weak cmp \<Longrightarrow> in_order cmp (array_sort cmp xs)"
  by (simp add: array_sort_def in_order_foldl)

lemma filter_insert_by:
  assumes sw: "strict_weak cmp"
    and cls: "\<forall>a b. P a \<longrightarrow> P b \<longrightarrow> \<not> cmp a b < 0"
    and "in_order cmp ys"
  shows "filter P (insert_by cmp x ys) = (if P x then filter P ys @ [x] else filter P ys)"
  using assms(3)
proof (induction ys)
  case Nil show ?case by simp
next
  case (Cons y ys)
  show ?case
  proof (cases "cmp x y < 0")
    case True
    have "\<not> P z" if "z \<in> set (y # ys)" "P x" for z
    proof
      assume "P z"
      with cls that have nxz: "\<not> cmp x z < 0" by blast
      from that Cons.prems have "z = y \<or> \<not> cmp z y < 0" by auto
      moreover from sw True have "cmp x z < 0 \<or> cmp z y < 0"
        unfolding strict_weak_def by blast
      ultimately show False using nxz True by auto
    qed
    then have "P x \<Longrightarrow> filter P (y # ys) = []"
      by (simp only: filter_empty_conv) blast
    with True show ?thesis by auto
  next
    case False
    with Cons show ?thesis by auto
  qed
qed

lemma filter_foldl_insert_by:
  assumes sw: "strict_weak cmp"
    and cls: "\<forall>a b. P a \<longrightarrow> P b \<longrightarrow> \<not> cmp a b < 0"
  shows "in_order cmp acc \<Longrightarrow>
     filter P (foldl (\<lambda>acc x. insert_by cmp x acc) acc xs) = filter P acc @ filter P xs"
proof (induction xs arbitrary: acc)
  case Nil show ?case by simp
next
  case (Cons x xs)
  have "in_order cmp (insert_by cmp x acc)"
    using sw Cons.prems by (rule in_order_insert_by)
  from Cons.IH [OF this] show ?case
    by (simp add: filter_insert_by [OF sw cls Cons.prems])
qed

lemma filter_array_sort:
  "strict_weak cmp \<Longrightarrow> \<forall>a b. P a \<longrightarrow> P b \<longrightarrow> \<not> cmp a b < 0 \<Longrightarrow>
     filter P (array_sort cmp xs) = filter P xs"
  using filter_foldl_insert_by [of cmp P "[]" xs] by (simp add: array_sort_def)

lemma strict_weak_by_count_desc: "strict_weak by_count_desc"
  by (auto simp: strict_weak_def by_count_desc_def)


subsection \<open>Tag aggregation\<close>

lemma calculateTags_Inr:
  assumes "calculateTags h skills = Inr out"
  shows "out = array_sort by_count_desc
                 (map (\<lambda>(name, count). \<lparr> tag_name = name, tag_count = count \<rparr>)
                    (tally (counted_tags h skills) []))"
proof -
  from assms obtain m where m: "count_skills h skills [] = Inr m"
    and out: "out = array_sort by_count_desc
                 (map (\<lambda>(name, count). \<lparr> tag_name = name, tag_count = count \<rparr>) m)"
    by (auto simp: calculateTags_def split: sum.splits)
  from count_skills_Inr [OF m] out show ?thesis by simp
qed

lemma calculateTags_total:
  "list_all tags_ok skills \<Longrightarrow> \<exists>out. calculateTags h skills = Inr out"
  using count_skills_total [of skills h "[]"] by (auto simp: calculateTags_def)

lemma entries_names:
  "map tag_name (map (\<lambda>(name, count). \<lparr> tag_name = name, tag_count = count \<rparr>) (tally ts []))
     = first_seen ts"
proof -
  have "map tag_name (map (\<lambda>(name, count). \<lparr> tag_name = name, tag_count = count \<rparr>) m) = map fst m"
    for m :: "(string, nat) jsmap"
    by (induction m) auto
  from this [of "tally ts []"] show ?thesis
    using keys_tally [of ts "[]"] by (simp only: first_seen_def) simp
qed

lemma entries_counts:
  assumes "e \<in> set (map (\<lambda>(name, count). \<lparr> tag_name = name, tag_count = count \<rparr>) (tally ts []))"
  shows "tag_count e = count_list ts (tag_name e)" and "tag_name e \<in> set ts"
proof -
  from assms obtain k c where kc: "(k, c) \<in> set (tally ts [])"
    and e: "e = \<lparr> tag_name = k, tag_count = c \<rparr>"
    by auto
  from tally_entries [OF kc] e show "tag_count e = count_list ts (tag_name e)"
    and "tag_name e \<in> set ts" by simp_all
qed

lemma counted_not_blank: "t \<in> set (counted h vs) \<Longrightarrow> t \<noteq> [] \<and> trim h t \<noteq> []"
proof (induction vs)
  case Nil then show ?case by simp
next
  case (Cons v vs)
  then show ?case by (cases v) (auto split: if_splits)
qed

lemma counted_tags_not_blank:
  "t \<in> set (counted_tags h skills) \<Longrightarrow> t \<noteq> [] \<and> trim h t \<noteq> []"
  by (auto simp: counted_tags_def dest: counted_not_blank split: jsval.splits)

lemma count_list_pos: "x \<in> set xs \<Longrightarrow> 1 \<le> count_list xs x"
  by (induction xs) auto

text \<open>
  C5. Tag aggregation is a function of the entity sequence alone. On entities whose tag
  elements are strings or falsy values it returns a sequence of name and count records that
  is sorted by count descending; the records of equal count stand in the order in which
  their tags are first seen; every count is at least 1; and no record has a name that is
  empty, or empty after trimming.
\<close>

theorem tag_aggregation_sorted:
  assumes "list_all tags_ok skills"
  shows "\<exists>out. calculateTags h skills = Inr out
       \<and> sorted_wrt (\<lambda>a b. tag_count b \<le> tag_count a) out
       \<and> (\<forall>c. map tag_name (filter (\<lambda>e. tag_count e = c) out)
                = filter (\<lambda>t. count_list (counted_tags h skills) t = c)
                    (first_seen (counted_tags h skills)))
       \<and> (\<forall>e \<in> set out. 1 \<le> tag_count e \<and> tag_name e \<noteq> [] \<and> trim h (tag_name e) \<noteq> [])"
proof -
  let ?ts = "counted_tags h skills"
  let ?entries = "map (\<lambda>(name, count). \<lparr> tag_name = name, tag_count = count \<rparr>) (tally ?ts [])"
  from calculateTags_total [OF assms] obtain out where ret: "calculateTags h skills = Inr out"
    by blast
  have out: "out = array_sort by_count_desc ?entries"
    using calculateTags_Inr [OF ret] .
  have "in_order by_count_desc out"
    unfolding out by (rule in_order_array_sort [OF strict_weak_by_count_desc])
  then have sorted: "sorted_wrt (\<lambda>a b. tag_count b \<le> tag_count a) out"
    by (rule sorted_wrt_mono_rel [rotated]) (simp add: by_count_desc_def)
  have same: "set out = set ?entries"
    using mset_array_sort [of by_count_desc ?entries] unfolding out by (rule mset_eq_setD)
  have each: "\<forall>e \<in> set out.
      1 \<le> tag_count e \<and> tag_name e \<noteq> [] \<and> trim h (tag_name e) \<noteq> []"
  proof
    fix e assume "e \<in> set out"
    with same have e: "e \<in> set ?entries" by simp
    from entries_counts [OF e] count_list_pos [of "tag_name e" ?ts]
    have "1 \<le> tag_count e" by simp
    moreover from entries_counts(2) [OF e]
    have "tag_name e \<noteq> [] \<and> trim h (tag_name e) \<noteq> []"
      by (rule counted_tags_not_blank)
    ultimately show "1 \<le> tag_count e \<and> tag_name e \<noteq> [] \<and> trim h (tag_name e) \<noteq> []"
      by simp
  qed
  have ties: "map tag_name (filter (\<lambda>e. tag_count e = c) out)
                = filter (\<lambda>t. count_list ?ts t = c) (first_seen ?ts)" for c
  proof -
    have "filter (\<lambda>e. tag_count e = c) out = filter (\<lambda>e. tag_count e = c) ?entries"
      unfolding out
      by (rule filter_array_sort [OF strict_weak_by_count_desc]) (simp add: by_count_desc_def)
    also have "\<dots> = filter (\<lambda>e. count_list ?ts (tag_name e) = c) ?entries"
      by (rule filter_cong [OF refl]) (simp only: entries_counts(1))
    finally have "map tag_name (filter (\<lambda>e. tag_count e = c) out)
        = filter (\<lambda>t. count_list ?ts t = c) (map tag_name ?entries)"
      by (simp only: filter_map comp_def)
    then show ?thesis by (simp only: entries_names)
  qed
  from ret sorted ties each show ?thesis by blast
qed

theorem tag_aggregation_sorted_witness:
  "list_all tags_ok demo_skills
   \<and> calculateTags demo_host demo_skills =
       Inr [\<lparr>tag_name = ''security'', tag_count = 1\<rparr>, \<lparr>tag_name = ''text'', tag_count = 1\<rparr>,
            \<lparr>tag_name = ''tools'', tag_count = 1\<rparr>]"
proof -
  have ok: "list_all tags_ok demo_skills"
    by (simp add: demo_skills_def plain_skill_def tags_ok_def)
  from tag_aggregation_sorted [OF ok, of demo_host]
  obtain out where "calculateTags demo_host demo_skills = Inr out"
    by blast
  moreover have "calculateTags demo_host demo_skills =
       Inr [\<lparr>tag_name = ''security'', tag_count = 1\<rparr>, \<lparr>tag_name = ''text'', tag_count = 1\<rparr>,
            \<lparr>tag_name = ''tools'', tag_count = 1\<rparr>]"
    by code_simp
  ultimately show ?thesis using ok by simp
qed

text \<open>
  As the claim has it, aggregation maps every entity sequence to a sequence of records. The
  entity that the scan builds from front matter with the tags \<^verbatim>\<open>[ok, 2024]\<close> keeps both
  elements, and aggregation over it ends in a TypeError.
\<close>

theorem tag_aggregation_sorted_counterexample:
  "make_skill ''2026-11-02'' ''numbered'' numbered_front [] (JObj []) (JObj []) []
     = Inr numbered_skill
   \<and> calculateTags demo_host [numbered_skill] = Inl TypeError"
  by code_simp

text \<open>
  C10. The counts are keyed by the tag strings as written, untrimmed: the emitted names are
  pairwise distinct and are exactly the counted strings, so two tags that differ in
  surrounding white space are two entries; and each entry's count is the number of
  occurrences of its exact string over all tag lists, an entity's own repetitions included.
\<close>

theorem tags_keyed_by_original_string:
  assumes "calculateTags h skills = Inr out"
  shows "distinct (map tag_name out)
       \<and> set (map tag_name out) = set (counted_tags h skills)
       \<and> (\<forall>e \<in> set out. tag_count e = count_list (counted_tags h skills) (tag_name e))"
proof -
  let ?ts = "counted_tags h skills"
  let ?entries = "map (\<lambda>(name, count). \<lparr> tag_name = name, tag_count = count \<rparr>) (tally ?ts [])"
  have out: "out = array_sort by_count_desc ?entries"
    using calculateTags_Inr [OF assms] .
  have ms: "mset out = mset ?entries"
    unfolding out by simp
  then have "mset (map tag_name out) = mset (map tag_name ?entries)"
    by (metis mset_map)
  then have names: "mset (map tag_name out) = mset (first_seen ?ts)"
    by (simp only: entries_names)
  have d: "distinct (map tag_name out)"
    using mset_eq_imp_distinct_iff [OF names]
    by (simp add: first_seen_def distinct_first_seen_from)
  have s: "set (map tag_name out) = set ?ts"
    using mset_eq_setD [OF names] by (simp add: first_seen_def set_first_seen_from)
  have "set out = set ?entries"
    using ms by (rule mset_eq_setD)
  then have c: "\<forall>e \<in> set out. tag_count e = count_list ?ts (tag_name e)"
    using entries_counts(1) [of _ ?ts] by metis
  from d s c show ?thesis by blast
qed

theorem tags_keyed_by_original_string_witness:
  "calculateTags demo_host spaced_skills =
     Inr [\<lparr>tag_name = ''tools'', tag_count = 2\<rparr>, \<lparr>tag_name = '' tools'', tag_count = 1\<rparr>]
   \<and> counted_tags demo_host spaced_skills = [''tools'', '' tools'', ''tools'']"
proof -
  have ret: "calculateTags demo_host spaced_skills =
     Inr [\<lparr>tag_name = ''tools'', tag_count = 2\<rparr>, \<lparr>tag_name = '' tools'', tag_count = 1\<rparr>]"
    by code_simp
  have "set (map tag_name [\<lparr>tag_name = ''tools'', tag_count = 2\<rparr>, \<lparr>tag_name = '' tools'', tag_count = 1\<rparr>])
      = set (counted_tags demo_host spaced_skills)"
    using tags_keyed_by_original_string [OF ret] by blast
  moreover have "counted_tags demo_host spaced_skills = [''tools'', '' tools'', ''tools'']"
    by code_simp
  ultimately show ?thesis using ret by simp
qed

subsection \<open>File lists\<close>

lemma letter_collate_less: "letter_collate a b < 0 \<longleftrightarrow> collation_key a < collation_key b"
  by (simp add: letter_collate_def)

lemma strict_weak_letter_collate: "strict_weak letter_collate"
  unfolding strict_weak_def letter_collate_less by auto

lemma strict_weak_on_names:
  "strict_weak lc \<Longrightarrow> strict_weak (\<lambda>a b. lc (file_name a) (file_name b))"
  unfolding strict_weak_def by blast

lemma insert_by_descriptor:
  "file_name x = ''SKILL.md'' \<Longrightarrow> insert_by (file_cmp lc) x acc = x # acc"
  by (cases acc) (simp_all add: file_cmp_def)

lemma insert_by_past_descriptors:
  "file_name x \<noteq> ''SKILL.md'' \<Longrightarrow> \<forall>p \<in> set ps. file_name p = ''SKILL.md'' \<Longrightarrow>
     insert_by (file_cmp lc) x (ps @ qs) = ps @ insert_by (file_cmp lc) x qs"
  by (induction ps) (simp_all add: file_cmp_def)

lemma insert_by_among_others:
  "file_name x \<noteq> ''SKILL.md'' \<Longrightarrow> \<forall>q \<in> set qs. file_name q \<noteq> ''SKILL.md'' \<Longrightarrow>
     insert_by (file_cmp lc) x qs = insert_by (\<lambda>a b. lc (file_name a) (file_name b)) x qs"
  by (induction qs) (simp_all add: file_cmp_def)

lemma foldl_file_cmp:
  assumes "\<forall>p \<in> set ps. file_name p = ''SKILL.md''"
    and "\<forall>q \<in> set qs. file_name q \<noteq> ''SKILL.md''"
  shows "foldl (\<lambda>acc x. insert_by (file_cmp lc) x acc) (ps @ qs) xs =
           rev (filter (\<lambda>f. file_name f = ''SKILL.md'') xs) @ ps @
           foldl (\<lambda>acc x. insert_by (\<lambda>a b. lc (file_name a) (file_name b)) x acc) qs
             (filter (\<lambda>f. file_name f \<noteq> ''SKILL.md'') xs)"
  using assms
proof (induction xs arbitrary: ps qs)
  case Nil
  show ?case by simp
next
  case (Cons x xs)
  show ?case
  proof (cases "file_name x = ''SKILL.md''")
    case True
    have "insert_by (file_cmp lc) x (ps @ qs) = (x # ps) @ qs"
      using True by (simp add: insert_by_descriptor)
    moreover have "\<forall>p \<in> set (x # ps). file_name p = ''SKILL.md''"
      using True Cons.prems(1) by simp
    ultimately show ?thesis
      using Cons.IH [of "x # ps" qs] Cons.prems(2) True by simp
  next
    case False
    let ?qs = "insert_by (\<lambda>a b. lc (file_name a) (file_name b)) x qs"
    have "insert_by (file_cmp lc) x (ps @ qs) = ps @ ?qs"
      using False Cons.prems
      by (simp add: insert_by_past_descriptors insert_by_among_others)
    moreover have "\<forall>q \<in> set ?qs. file_name q \<noteq> ''SKILL.md''"
      using False Cons.prems(2) by simp
    ultimately show ?thesis
      using Cons.IH [of ps ?qs] Cons.prems(1) False by simp
  qed
qed

lemma array_sort_file_cmp:
  "array_sort (file_cmp lc) xs =
     rev (filter (\<lambda>f. file_name f = ''SKILL.md'') xs) @
     array_sort (\<lambda>a b. lc (file_name a) (file_name b))
       (filter (\<lambda>f. file_name f \<noteq> ''SKILL.md'') xs)"
  using foldl_file_cmp [of "[]" "[]" lc xs] by (simp add: array_sort_def)

lemma set_array_sort [simp]: "set (array_sort cmp xs) = set xs"
  using mset_array_sort [of cmp xs] by (rule mset_eq_setD)



text \<open>
  C2, as the code has it. When exactly one file of the entity is named SKILL.md and the
  host's \<^verbatim>\<open>localeCompare\<close> orders names consistently, the file sequence has that file
  first and the remaining files in ascending order of their names under
  \<^verbatim>\<open>localeCompare\<close>: no later file is strictly before an earlier one.
\<close>

theorem descriptor_first_rest_collated:
  assumes "scanSkillFiles h dir skillName = Inr fl"
    and "strict_weak (localeCompare h)"
    and "length (filter (\<lambda>f. file_name f = ''SKILL.md'') fl) = 1"
  shows "file_name (hd fl) = ''SKILL.md''
       \<and> in_order (\<lambda>a b. localeCompare h (file_name a) (file_name b)) (tl fl)
       \<and> (\<forall>f \<in> set (tl fl). file_name f \<noteq> ''SKILL.md'')"
proof -
  let ?P = "\<lambda>f. file_name f = ''SKILL.md''"
  let ?by_name = "\<lambda>a b. localeCompare h (file_name a) (file_name b)"
  from assms(1) obtain xs where fl: "fl = array_sort (file_cmp (localeCompare h)) xs"
    by (auto simp: scanSkillFiles_def split: sum.splits)
  let ?rest = "array_sort ?by_name (filter (\<lambda>f. file_name f \<noteq> ''SKILL.md'') xs)"
  have parts: "fl = rev (filter ?P xs) @ ?rest"
    unfolding fl using array_sort_file_cmp [of "localeCompare h" xs] .
  have none: "filter ?P ?rest = []"
    by (simp add: filter_empty_conv)
  have "filter ?P (rev (filter ?P xs)) = rev (filter ?P xs)"
    by (simp add: filter_id_conv)
  then have "filter ?P fl = rev (filter ?P xs)"
    unfolding parts by (simp add: none)
  then have "length (filter ?P xs) = 1"
    using assms(3) by simp
  then obtain s where s: "filter ?P xs = [s]"
    by (cases "filter ?P xs") auto
  then have "s \<in> set (filter ?P xs)" by simp
  then have named: "file_name s = ''SKILL.md''" by simp
  have shape: "fl = s # ?rest"
    using parts s by simp
  have first: "hd fl = s" and others: "tl fl = ?rest"
    unfolding shape by simp_all
  have ordered: "in_order ?by_name ?rest"
    by (rule in_order_array_sort [OF strict_weak_on_names [OF assms(2)]])
  have unnamed: "\<forall>f \<in> set ?rest. file_name f \<noteq> ''SKILL.md''"
    by simp
  show ?thesis
    unfolding first others using named ordered unnamed by (intro conjI)
qed

theorem descriptor_first_rest_collated_witness:
  "map_sum id (map file_name) (scanSkillFiles demo_host listed_dir ''demo'')
     = Inr [''SKILL.md'', ''a.md'', ''B.md'']
   \<and> strict_weak (localeCompare demo_host)"
proof -
  have run: "map_sum id (map file_name) (scanSkillFiles demo_host listed_dir ''demo'')
     = Inr [''SKILL.md'', ''a.md'', ''B.md'']"
    by code_simp
  then obtain fl where ret: "scanSkillFiles demo_host listed_dir ''demo'' = Inr fl"
    and names: "map file_name fl = [''SKILL.md'', ''a.md'', ''B.md'']"
    by (cases "scanSkillFiles demo_host listed_dir ''demo''") auto
  have sw: "strict_weak (localeCompare demo_host)"
    by (simp add: demo_host_def strict_weak_letter_collate)
  have one: "length (filter (\<lambda>f. file_name f = ''SKILL.md'') fl) = 1"
  proof -
    have "length (filter (\<lambda>f. file_name f = ''SKILL.md'') fl)
        = length (filter (\<lambda>n. n = ''SKILL.md'') (map file_name fl))"
      by (simp add: filter_map comp_def)
    then show ?thesis by (simp add: names)
  qed
  from descriptor_first_rest_collated [OF ret sw one]
  have "file_name (hd fl) = ''SKILL.md''" by blast
  with run sw show ?thesis by simp
qed

text \<open>
  C2 as stated fails on the order of the remaining files: \<^verbatim>\<open>localeCompare\<close> is not the
  ordinal comparison. With the files a.md and B.md beside the descriptor, the sequence is
  SKILL.md, a.md, B.md, and a.md is not before B.md in the ordinal order of strings.
\<close>

theorem descriptor_first_rest_collated_counterexample:
  "map_sum id (map file_name) (scanSkillFiles demo_host listed_dir ''demo'')
     = Inr [''SKILL.md'', ''a.md'', ''B.md'']
   \<and> \<not> sorted [''a.md'', ''B.md'']"
  by code_simp

subsection \<open>Packaging\<close>

lemma under_append [simp]: "under r (xs @ ys) = under r xs @ under r ys"
  by (simp add: under_def)

lemma under_map: "under r (map (\<lambda>(k, e). (p @ k, e)) kvs) = under (r @ p) kvs"
  by (induction kvs) (auto simp: under_def)







lemma under_Nil [simp]: "under [] kvs = kvs"
  by (induction kvs) (auto simp: under_def)































subsection \<open>Metadata readers and the entities of a scan\<close>

lemma scan_collection_made:
  "s \<in> set (fst (scan_collection h si sj entries)) \<Longrightarrow>
     \<exists>name dir data body fl.
       (name, dir) \<in> set entries \<and> isDirectory dir
       \<and> make_skill (today h) name data body
             (js_or (map_get si (JStr name)) (JObj []))
             (js_or (map_get sj (JStr name)) (JObj [])) fl = Inr s"
proof (induction entries)
  case Nil
  then show ?case by simp
next
  case (Cons entry entries)
  obtain name n where entry: "entry = (name, n)" by (cases entry)
  obtain skills evs where rest: "scan_collection h si sj entries = (skills, evs)"
    by (cases "scan_collection h si sj entries")
  show ?case
  proof (cases "s \<in> set skills")
    case True
    with Cons.IH rest show ?thesis by fastforce
  next
    case False
    with Cons.prems entry rest have dir: "isDirectory n"
      and made: "scan_entry h si sj name n = Inr s"
      by (auto split: if_splits sum.splits)
    from made obtain data body fl where
      "make_skill (today h) name data body
         (js_or (map_get si (JStr name)) (JObj []))
         (js_or (map_get sj (JStr name)) (JObj [])) fl = Inr s"
      by (auto simp: scan_entry_def split: sum.splits prod.splits)
    with dir entry show ?thesis by fastforce
  qed
qed

text \<open>
  C6. Neither metadata reader lets an error out. Whenever the try block of the
  combined-index reader fails, and it does so when the file cannot be read and when its text
  cannot be parsed, the reader returns the empty mapping and one warning. When the
  per-entity JSON directory cannot be listed, that reader returns the empty mapping and one
  warning. In both cases scanSkills goes on to scan the collection, with the empty mapping
  in the reader's place.
\<close>

theorem metadata_readers_never_fatal:
  "(read_index h t repoPath = Inl e \<longrightarrow>
      readSkillsIndex h t repoPath
        = ([], [Warn ''skills.json missing or unparsable, using SKILL.md data only'']))
   \<and> (readFile t (repoPath @ [''skills.json'']) = Inl e \<longrightarrow> read_index h t repoPath = Inl e)
   \<and> (readFile t (repoPath @ [''skills.json'']) = Inr str \<and> json_parse h str = Inl e \<longrightarrow>
        read_index h t repoPath = Inl e)
   \<and> (readdir t (repoPath @ [''skills-json'']) = Inl e' \<longrightarrow>
        readSkillsJsonData h t repoPath = ([], [Warn ''cannot read skills-json directory'']))
   \<and> (read_index h t repoPath = Inl e \<longrightarrow>
        fst (scanSkills h t repoPath)
          = fst (scan_collection_dir h t repoPath [] (fst (readSkillsJsonData h t repoPath))))
   \<and> (readdir t (repoPath @ [''skills-json'']) = Inl e' \<longrightarrow>
        fst (scanSkills h t repoPath)
          = fst (scan_collection_dir h t repoPath (fst (readSkillsIndex h t repoPath)) []))"
proof -
  have idx: "readSkillsIndex h t repoPath
        = ([], [Warn ''skills.json missing or unparsable, using SKILL.md data only''])"
    if "read_index h t repoPath = Inl e"
    using that by (simp add: readSkillsIndex_def)
  have rd: "read_index h t repoPath = Inl e"
    if "readFile t (repoPath @ [''skills.json'']) = Inl e"
    using that by (simp add: read_index_def)
  have parse: "read_index h t repoPath = Inl e"
    if "readFile t (repoPath @ [''skills.json'']) = Inr str \<and> json_parse h str = Inl e"
    using that by (simp add: read_index_def)
  have js: "readSkillsJsonData h t repoPath = ([], [Warn ''cannot read skills-json directory''])"
    if "readdir t (repoPath @ [''skills-json'']) = Inl e'"
    using that by (simp add: readSkillsJsonData_def)
  have go1: "fst (scanSkills h t repoPath)
          = fst (scan_collection_dir h t repoPath [] (fst (readSkillsJsonData h t repoPath)))"
    if "read_index h t repoPath = Inl e"
    using idx [OF that] by (simp add: scanSkills_def split: prod.splits)
  have go2: "fst (scanSkills h t repoPath)
          = fst (scan_collection_dir h t repoPath (fst (readSkillsIndex h t repoPath)) [])"
    if "readdir t (repoPath @ [''skills-json'']) = Inl e'"
    using js [OF that] by (simp add: scanSkills_def split: prod.splits)
  from idx rd parse js go1 go2 show ?thesis by blast
qed


theorem metadata_readers_never_fatal_witness:
  "read_index demo_host broken_meta_repo [] = Inl SyntaxError
   \<and> readdir broken_meta_repo ([] @ [''skills-json'']) = Inl (Errno ''EACCES'')
   \<and> readSkillsIndex demo_host broken_meta_repo []
       = ([], [Warn ''skills.json missing or unparsable, using SKILL.md data only''])
   \<and> readSkillsJsonData demo_host broken_meta_repo []
       = ([], [Warn ''cannot read skills-json directory''])
   \<and> map_sum id (map skill_id) (fst (scanSkills demo_host broken_meta_repo []))
       = Inr [''auth-helper'']"
proof -
  have idx: "read_index demo_host broken_meta_repo [] = Inl SyntaxError"
    by code_simp
  have dir: "readdir broken_meta_repo ([] @ [''skills-json'']) = Inl (Errno ''EACCES'')"
    by code_simp
  note readers = metadata_readers_never_fatal
    [where h = demo_host and t = broken_meta_repo and repoPath = "[]"
       and e = SyntaxError and e' = "Errno ''EACCES''"]
  from readers idx have a: "readSkillsIndex demo_host broken_meta_repo []
       = ([], [Warn ''skills.json missing or unparsable, using SKILL.md data only''])"
    by blast
  from readers dir have b: "readSkillsJsonData demo_host broken_meta_repo []
       = ([], [Warn ''cannot read skills-json directory''])"
    by blast
  from readers idx have "fst (scanSkills demo_host broken_meta_repo [])
      = fst (scan_collection_dir demo_host broken_meta_repo [] []
               (fst (readSkillsJsonData demo_host broken_meta_repo [])))"
    by blast
  then have "fst (scanSkills demo_host broken_meta_repo [])
      = fst (scan_collection_dir demo_host broken_meta_repo [] [] [])"
    by (simp add: b)
  moreover have "map_sum id (map skill_id)
      (fst (scan_collection_dir demo_host broken_meta_repo [] [] [])) = Inr [''auth-helper'']"
    by code_simp
  ultimately show ?thesis
    using idx dir a b by simp
qed


subsection \<open>The run\<close>

text \<open>
  An unreadable node makes addFilesToZip throw, and stays unreadable while the archives of
  other entities are written; a refused write makes the step that attempts it throw.
\<close>

lemma main_exit: "fst (main h cfg w) = (case fst (run h cfg (emit (Log ''sync started'') w)) of
    Inl e \<Rightarrow> 1 | Inr u \<Rightarrow> 0)"
  by (simp add: main_def split: prod.splits sum.splits)

lemma main_fails: "isl (fst (run h cfg (emit (Log ''sync started'') w))) \<Longrightarrow> fst (main h cfg w) = 1"
  by (cases "fst (run h cfg (emit (Log ''sync started'') w))") (simp_all add: main_exit)

lemma then_do_isl: "isl (fst r) \<Longrightarrow> isl (fst (then_do r f))"
  by (cases r) (auto simp: then_do_def split: sum.splits)

lemma then_do_later:
  "(\<And>x w. isl (fst (f x w))) \<Longrightarrow> isl (fst (then_do r f))"
  by (cases r) (auto simp: then_do_def split: sum.splits)

lemma unreadable_fails:
  "\<not> readable n \<Longrightarrow> isl (addFilesToZip n root z)"
  "\<not> readable_entries es \<Longrightarrow> isl (add_entries es root z)"
proof (induction n root z and es root z rule: addFilesToZip_add_entries.induct)
  case (6 name n rest root z)
  show ?case
  proof (cases "isDirectory n")
    case True
    obtain newRoot z1 where zf: "(newRoot, z1) = zip_folder root name z"
      by (cases "zip_folder root name z") simp
    show ?thesis
    proof (cases "addFilesToZip n newRoot z1")
      case (Inl e)
      with True zf [symmetric] show ?thesis by simp
    next
      case (Inr z2)
      with "6.IH"(1) [OF True zf] have "readable n" by auto
      with "6.prems" have "\<not> readable_entries rest" by simp
      with "6.IH"(2) [OF True zf Inr] True zf [symmetric] Inr show ?thesis by simp
    qed
  next
    case False
    show ?thesis
    proof (cases "readFile_node n")
      case (Inl e)
      with False show ?thesis by simp
    next
      case (Inr data)
      with False have "readable n" by (cases n) auto
      with "6.prems" have "\<not> readable_entries rest" by simp
      with "6.IH"(3) [OF False Inr] False Inr show ?thesis by simp
    qed
  qed
qed simp_all

lemma packSkill_unreadable:
  assumes "resolve (fs w) (repoPath @ [''skills-collection'', skill_id skill]) = Inr dir"
    and "\<not> readable dir"
  shows "isl (fst (packSkill h cfg skill repoPath w))"
proof -
  have "isl (addFilesToZip dir [] Map.empty)"
    using assms(2) by (rule unreadable_fails(1))
  then obtain e where "addFilesToZip dir [] Map.empty = Inl e"
    by (cases "addFilesToZip dir [] Map.empty") simp_all
  with assms(1) show ?thesis by (simp add: packSkill_def)
qed

lemma packSkill_denied:
  assumes "denies_write h (downloadsDir cfg @ [skill_id skill @ ''.zip''])"
  shows "isl (fst (packSkill h cfg skill repoPath w))"
  using assms
  by (auto simp: packSkill_def writeFile_def then_do_def Let_def split: sum.splits)

lemma readable_entries_append:
  "readable_entries (es @ es') \<longleftrightarrow> readable_entries es \<and> readable_entries es'"
  by (induction es) auto

lemma readable_entries_map_set:
  assumes "\<not> readable_entries es" and "map_of es k = Some child"
    and "\<not> readable child \<Longrightarrow> \<not> readable child'"
  shows "\<not> readable_entries (map_set k child' es)"
  using assms by (induction es) (auto split: if_splits)

lemma put_file_keeps_unreadable:
  "put_file p c t = Inr t' \<Longrightarrow> resolve t q = Inr n \<Longrightarrow> \<not> readable n \<Longrightarrow>
     \<exists>n'. resolve t' q = Inr n' \<and> \<not> readable n'"
proof (induction p c t arbitrary: t' q n rule: put_file.induct)
  case (1 c old)
  then show ?case by (cases q) auto
next
  case (4 k ks c es)
  show ?case
  proof (cases "map_of es k")
    case None
    with "4.prems"(1) have t': "t' = Dir (es @ [(k, File c)])"
      by (auto split: if_splits)
    show ?thesis
    proof (cases q)
      case Nil
      with "4.prems"(2,3) have "\<not> readable_entries es" by auto
      with Nil t' show ?thesis by (simp add: readable_entries_append)
    next
      case (Cons k' q')
      with "4.prems"(2) obtain ch where "map_of es k' = Some ch" and "resolve ch q' = Inr n"
        by (auto split: option.splits)
      with Cons t' "4.prems"(3) show ?thesis by (auto simp: map_add_def)
    qed
  next
    case (Some child)
    with "4.prems"(1) obtain child' where put: "put_file ks c child = Inr child'"
      and t': "t' = Dir (map_set k child' es)"
      by (auto split: sum.splits)
    have keep: "\<not> readable child \<Longrightarrow> \<not> readable child'"
      using "4.IH" [OF Some put, of "[]" child] by auto
    show ?thesis
    proof (cases q)
      case Nil
      with "4.prems"(2,3) have "\<not> readable_entries es" by auto
      from readable_entries_map_set [OF this Some keep] Nil t' show ?thesis by simp
    next
      case (Cons k' q')
      with "4.prems"(2) obtain ch where ch: "map_of es k' = Some ch" and r: "resolve ch q' = Inr n"
        by (auto split: option.splits)
      show ?thesis
      proof (cases "k' = k")
        case True
        with ch Some have "ch = child" by simp
        with "4.IH" [OF Some put, of q' n] r "4.prems"(3) obtain n' where
          "resolve child' q' = Inr n'" and "\<not> readable n'" by auto
        with True Cons t' show ?thesis by (simp add: map_of_map_set)
      next
        case False
        with ch r Cons t' "4.prems"(3) show ?thesis by (simp add: map_of_map_set)
      qed
    qed
  qed
qed simp_all

lemma writeFile_keeps_unreadable:
  assumes "writeFile h p c w = (Inr u, w')" and "resolve (fs w) q = Inr n" and "\<not> readable n"
  shows "\<exists>n'. resolve (fs w') q = Inr n' \<and> \<not> readable n'"
proof -
  from assms(1) obtain t where "put_file p c (fs w) = Inr t" and "fs w' = t"
    by (auto simp: writeFile_def emit_def split: if_splits sum.splits)
  with put_file_keeps_unreadable [OF _ assms(2,3)] show ?thesis by auto
qed

lemma packSkill_keeps_unreadable:
  assumes "packSkill h cfg skill repoPath w = (Inr b, w')"
    and "resolve (fs w) q = Inr n" and "\<not> readable n"
  shows "\<exists>n'. resolve (fs w') q = Inr n' \<and> \<not> readable n'"
proof -
  from assms(1) obtain z w1 where
    wr: "writeFile h (downloadsDir cfg @ [skill_id skill @ ''.zip'']) (generateAsync h z) w
           = (Inr (), w1)"
    and w': "fs w' = fs w1"
    by (auto simp: packSkill_def then_do_def Let_def emit_def split: sum.splits prod.splits)
  from writeFile_keeps_unreadable [OF wr assms(2,3)] w' show ?thesis by simp
qed

lemma pack_all_unreadable:
  assumes "s \<in> set skills"
    and "resolve (fs w) (repoPath @ [''skills-collection'', skill_id s]) = Inr n"
    and "\<not> readable n"
  shows "isl (fst (pack_all h cfg skills repoPath w))"
  using assms
proof (induction skills arbitrary: w n)
  case Nil then show ?case by simp
next
  case (Cons a rest)
  show ?case
  proof (cases "packSkill h cfg a repoPath w")
    case (Pair r w1)
    show ?thesis
    proof (cases r)
      case (Inl e)
      with Pair show ?thesis by (simp add: then_do_def)
    next
      case (Inr b)
      with Pair have ok: "packSkill h cfg a repoPath w = (Inr b, w1)" by simp
      from packSkill_unreadable [OF Cons.prems(2,3), of h cfg] ok Cons.prems(1)
      have "s \<in> set rest" by auto
      moreover from packSkill_keeps_unreadable [OF ok Cons.prems(2,3)] obtain n' where
        "resolve (fs w1) (repoPath @ [''skills-collection'', skill_id s]) = Inr n'"
        and "\<not> readable n'" by blast
      ultimately have "isl (fst (pack_all h cfg rest repoPath w1))"
        by (rule Cons.IH)
      with ok show ?thesis by (simp add: then_do_def)
    qed
  qed
qed

lemma pack_all_denied:
  assumes "s \<in> set skills"
    and "denies_write h (downloadsDir cfg @ [skill_id s @ ''.zip''])"
  shows "isl (fst (pack_all h cfg skills repoPath w))"
  using assms
proof (induction skills arbitrary: w)
  case Nil then show ?case by simp
next
  case (Cons a rest)
  show ?case
  proof (cases "packSkill h cfg a repoPath w")
    case (Pair r w1)
    show ?thesis
    proof (cases r)
      case (Inl e)
      with Pair show ?thesis by (simp add: then_do_def)
    next
      case (Inr b)
      with Pair have ok: "packSkill h cfg a repoPath w = (Inr b, w1)" by simp
      from packSkill_denied [of h cfg a repoPath w] ok Cons.prems
      have "s \<in> set rest" by auto
      then have "isl (fst (pack_all h cfg rest repoPath w1))"
        using Cons.prems(2) by (rule Cons.IH)
      with ok show ?thesis by (simp add: then_do_def)
    qed
  qed
qed

lemma write_contents_denied:
  assumes "s \<in> set skills"
    and "denies_write h (contentDir @ [skill_id s @ ''.json''])"
  shows "isl (fst (write_contents h contentDir skills w))"
  using assms
proof (induction skills arbitrary: w)
  case Nil then show ?case by simp
next
  case (Cons a rest)
  let ?wr = "writeFile h (contentDir @ [skill_id a @ ''.json''])
               (stringify_content h (content a) (files a)) w"
  show ?case
  proof (cases ?wr)
    case (Pair r w1)
    show ?thesis
    proof (cases r)
      case (Inl e)
      with Pair show ?thesis by (simp add: then_do_def)
    next
      case (Inr u)
      with Pair have "\<not> denies_write h (contentDir @ [skill_id a @ ''.json''])"
        by (auto simp: writeFile_def split: if_splits)
      with Cons.prems have "s \<in> set rest" by auto
      then have "isl (fst (write_contents h contentDir rest w1))"
        using Cons.prems(2) by (rule Cons.IH)
      with Pair Inr show ?thesis by (simp add: then_do_def)
    qed
  qed
qed

lemma getRepoPath_not_found:
  "access (fs w) (localRepoPath cfg) = Inl e \<Longrightarrow> remoteRepoUrl cfg = None \<Longrightarrow>
     fst (getRepoPath h cfg w) = Inl (Failure ''skills-repo not found'')"
  by (simp add: getRepoPath_def Let_def)

lemma getRepoPath_clone_failed:
  assumes "access (fs w) (localRepoPath cfg) = Inl e" and "remoteRepoUrl cfg = Some url"
    and "git_clone h (clone_url cfg url) = Inl e'"
  shows "isl (fst (getRepoPath h cfg w))"
proof (cases "url = []")
  case True
  with assms show ?thesis by (simp add: getRepoPath_def Let_def)
next
  case False
  have "isl (fst (execSync_clone h (clone_url cfg url) (tempCloneDir cfg) w3))" for w3
    using assms(3) by (simp add: execSync_clone_def)
  then have clone: "isl (fst (then_do (execSync_clone h (clone_url cfg url) (tempCloneDir cfg) w3)
                         (\<lambda>u w4. (Inr (tempCloneDir cfg), w4))))" for w3
    by (rule then_do_isl)
  have "isl (fst (then_do (rm h (tempCloneDir cfg)
                                  (emit (Log ''cloning remote repository'')
                                     (emit (Log ''local skills-repo does not exist'') w)))
                         (\<lambda>u w2. then_do (ensureDir h (tempCloneDir cfg) w2)
                         (\<lambda>u w3. then_do (execSync_clone h (clone_url cfg url) (tempCloneDir cfg) w3)
                         (\<lambda>u w4. (Inr (tempCloneDir cfg), w4))))))"
    by (rule then_do_later, rule then_do_later, rule clone)
  with assms(1,2) False show ?thesis
    by (auto simp: getRepoPath_def Let_def split: prod.splits sum.splits)
qed

lemma prepare_fails:
  assumes "clean_outputs h cfg w = (Inr u, w3)" and "isl (fst (getRepoPath h cfg w3))"
  shows "isl (fst (run h cfg w))"
proof -
  from assms(1) have "prepare h cfg w = getRepoPath h cfg w3"
    by (simp add: prepare_def then_do_def)
  with assms(2) show ?thesis by (simp add: run_def then_do_isl)
qed

lemma run_publish:
  assumes "prepare h cfg w0 = (Inr repoPath, w1)"
    and "scanSkills h (fs w1) repoPath = (Inr skills, evs)" and "skills \<noteq> []"
  shows "run h cfg w0 = publish h cfg repoPath skills (scanned evs w1)"
  using assms by (simp add: run_def then_do_def scan_and_publish_def)

lemma publish_pack_fails:
  "isl (fst (pack_all h cfg skills repoPath (emit (Log ''packing skills'') w))) \<Longrightarrow>
     isl (fst (publish h cfg repoPath skills w))"
  unfolding publish_def by (rule then_do_isl)

lemma publish_index_denied:
  assumes "denies_write h (outputPath cfg)"
  shows "isl (fst (publish h cfg repoPath skills w))"
  unfolding publish_def
proof (rule then_do_later)
  fix u w1
  show "isl (fst (case generateIndex h cfg skills of
        Inl e \<Rightarrow> (Inl e, emit (Log ''generating index'') w1)
      | Inr index \<Rightarrow>
     then_do (writeFile h (outputPath cfg) (stringify_index h index)
                (emit (Log ''generating index'') w1))
     (\<lambda>u w2. then_do (ensureDir h (root_dir cfg @ [''src'', ''data'', ''contents''])
                        (emit (Log ''index saved'') w2))
     (\<lambda>u w3. then_do (write_contents h (root_dir cfg @ [''src'', ''data'', ''contents'']) skills w3)
     (\<lambda>u w4. let w5 = emit (Log ''statistics'') (emit (Log ''contents saved'') w4) in
        then_do (if repoPath = tempCloneDir cfg
                 then rm h (tempCloneDir cfg) (emit (Log ''removing temporary clone'') w5)
                 else (Inr (), w5))
     (\<lambda>u w6. (Inr (), emit (Log ''sync complete'') w6)))))))"
  proof (cases "generateIndex h cfg skills")
    case (Inl e) then show ?thesis by simp
  next
    case (Inr index)
    have "isl (fst (writeFile h (outputPath cfg) (stringify_index h index)
                (emit (Log ''generating index'') w1)))"
      using assms by (simp add: writeFile_def)
    with Inr show ?thesis by (simp add: then_do_isl)
  qed
qed

lemma publish_content_denied:
  assumes "s \<in> set skills"
    and "denies_write h (root_dir cfg @ [''src'', ''data'', ''contents'', skill_id s @ ''.json''])"
  shows "isl (fst (publish h cfg repoPath skills w))"
  unfolding publish_def
proof (rule then_do_later)
  fix u w1
  let ?dir = "root_dir cfg @ [''src'', ''data'', ''contents'']"
  have wc: "isl (fst (then_do (write_contents h ?dir skills w3) f))" for w3 f
    using write_contents_denied [OF assms(1), of h ?dir w3] assms(2)
    by (simp add: then_do_isl)
  show "isl (fst (case generateIndex h cfg skills of
        Inl e \<Rightarrow> (Inl e, emit (Log ''generating index'') w1)
      | Inr index \<Rightarrow>
     then_do (writeFile h (outputPath cfg) (stringify_index h index)
                (emit (Log ''generating index'') w1))
     (\<lambda>u w2. then_do (ensureDir h (root_dir cfg @ [''src'', ''data'', ''contents''])
                        (emit (Log ''index saved'') w2))
     (\<lambda>u w3. then_do (write_contents h (root_dir cfg @ [''src'', ''data'', ''contents'']) skills w3)
     (\<lambda>u w4. let w5 = emit (Log ''statistics'') (emit (Log ''contents saved'') w4) in
        then_do (if repoPath = tempCloneDir cfg
                 then rm h (tempCloneDir cfg) (emit (Log ''removing temporary clone'') w5)
                 else (Inr (), w5))
     (\<lambda>u w6. (Inr (), emit (Log ''sync complete'') w6)))))))"
  proof (cases "generateIndex h cfg skills")
    case (Inl e) then show ?thesis by simp
  next
    case (Inr index)
    show ?thesis
      unfolding Inr sum.case
      by (rule then_do_later, rule then_do_later, rule wc)
  qed
qed

text \<open>
  C4. When the run reaches the scan and the scan finds no entity, main ends with status 0,
  its last message the warning, and the file system as the scan found it: nothing is
  packaged or written after the scan. Every exception in the try block ends the process
  with status 1. In particular the status is 1 when the repository cannot be located (no
  local path and no remote URL, or a clone that fails); when the scan itself throws; when
  the directory of any entity found holds a file or directory that cannot be read; when
  the archive of any entity, the index file, or the content file of any entity may not be
  written; and whenever the steps after the scan throw.
\<close>

theorem soft_stop_exits_0_fatal_exits_1:
  "(prepare h cfg (emit (Log ''sync started'') w) = (Inr repoPath, w1)
      \<and> scanSkills h (fs w1) repoPath = (Inr [], evs) \<longrightarrow>
        main h cfg w = (0, emit (Warn ''no skills found'') (scanned evs w1)))
   \<and> (run h cfg (emit (Log ''sync started'') w) = (Inl e, w2) \<longrightarrow>
        main h cfg w = (1, emit (Err ''sync failed'') w2))
   \<and> (clean_outputs h cfg (emit (Log ''sync started'') w) = (Inr u, w3)
      \<and> access (fs w3) (localRepoPath cfg) = Inl e \<and> remoteRepoUrl cfg = None \<longrightarrow>
        fst (main h cfg w) = 1)
   \<and> (clean_outputs h cfg (emit (Log ''sync started'') w) = (Inr u, w3)
      \<and> access (fs w3) (localRepoPath cfg) = Inl e \<and> remoteRepoUrl cfg = Some url
      \<and> git_clone h (clone_url cfg url) = Inl e' \<longrightarrow>
        fst (main h cfg w) = 1)
   \<and> (prepare h cfg (emit (Log ''sync started'') w) = (Inr repoPath, w1)
      \<and> scanSkills h (fs w1) repoPath = (Inl e, evs) \<longrightarrow>
        fst (main h cfg w) = 1)
   \<and> (prepare h cfg (emit (Log ''sync started'') w) = (Inr repoPath, w1)
      \<and> scanSkills h (fs w1) repoPath = (Inr skills, evs) \<and> skills \<noteq> []
      \<and> fst (publish h cfg repoPath skills (scanned evs w1)) = Inl e \<longrightarrow>
        fst (main h cfg w) = 1)
   \<and> (prepare h cfg (emit (Log ''sync started'') w) = (Inr repoPath, w1)
      \<and> scanSkills h (fs w1) repoPath = (Inr skills, evs) \<and> s \<in> set skills
      \<and> resolve (fs w1) (repoPath @ [''skills-collection'', skill_id s]) = Inr dir
      \<and> \<not> readable dir \<longrightarrow>
        fst (main h cfg w) = 1)
   \<and> (prepare h cfg (emit (Log ''sync started'') w) = (Inr repoPath, w1)
      \<and> scanSkills h (fs w1) repoPath = (Inr skills, evs) \<and> s \<in> set skills
      \<and> denies_write h (downloadsDir cfg @ [skill_id s @ ''.zip'']) \<longrightarrow>
        fst (main h cfg w) = 1)
   \<and> (prepare h cfg (emit (Log ''sync started'') w) = (Inr repoPath, w1)
      \<and> scanSkills h (fs w1) repoPath = (Inr skills, evs) \<and> skills \<noteq> []
      \<and> denies_write h (outputPath cfg) \<longrightarrow>
        fst (main h cfg w) = 1)
   \<and> (prepare h cfg (emit (Log ''sync started'') w) = (Inr repoPath, w1)
      \<and> scanSkills h (fs w1) repoPath = (Inr skills, evs) \<and> s \<in> set skills
      \<and> denies_write h (root_dir cfg @ [''src'', ''data'', ''contents'', skill_id s @ ''.json''])
      \<longrightarrow> fst (main h cfg w) = 1)"
proof -
  let ?w0 = "emit (Log ''sync started'') w"
  have soft: "main h cfg w = (0, emit (Warn ''no skills found'') (scanned evs w1))"
    if "prepare h cfg ?w0 = (Inr repoPath, w1) \<and> scanSkills h (fs w1) repoPath = (Inr [], evs)"
    using that by (simp add: main_def run_def then_do_def scan_and_publish_def)
  have caught: "main h cfg w = (1, emit (Err ''sync failed'') w2)"
    if "run h cfg ?w0 = (Inl e, w2)"
    using that by (simp add: main_def)
  have norepo: "fst (main h cfg w) = 1"
    if "clean_outputs h cfg ?w0 = (Inr u, w3)
      \<and> access (fs w3) (localRepoPath cfg) = Inl e \<and> remoteRepoUrl cfg = None"
  proof -
    from that have "isl (fst (getRepoPath h cfg w3))"
      by (simp add: getRepoPath_not_found)
    with that have "isl (fst (run h cfg ?w0))"
      by (simp add: prepare_fails)
    then show ?thesis by (rule main_fails)
  qed
  have noclone: "fst (main h cfg w) = 1"
    if "clean_outputs h cfg ?w0 = (Inr u, w3)
      \<and> access (fs w3) (localRepoPath cfg) = Inl e \<and> remoteRepoUrl cfg = Some url
      \<and> git_clone h (clone_url cfg url) = Inl e'"
  proof -
    from that have "isl (fst (getRepoPath h cfg w3))"
      by (simp add: getRepoPath_clone_failed)
    with that have "isl (fst (run h cfg ?w0))"
      by (simp add: prepare_fails)
    then show ?thesis by (rule main_fails)
  qed
  have scan: "fst (main h cfg w) = 1"
    if "prepare h cfg ?w0 = (Inr repoPath, w1) \<and> scanSkills h (fs w1) repoPath = (Inl e, evs)"
  proof -
    from that have "isl (fst (run h cfg ?w0))"
      by (simp add: run_def then_do_def scan_and_publish_def)
    then show ?thesis by (rule main_fails)
  qed
  have pub: "fst (main h cfg w) = 1"
    if "prepare h cfg ?w0 = (Inr repoPath, w1)
      \<and> scanSkills h (fs w1) repoPath = (Inr skills, evs) \<and> skills \<noteq> []
      \<and> fst (publish h cfg repoPath skills (scanned evs w1)) = Inl e"
  proof -
    from that have "isl (fst (run h cfg ?w0))"
      by (simp add: run_publish)
    then show ?thesis by (rule main_fails)
  qed
  have read: "fst (main h cfg w) = 1"
    if "prepare h cfg ?w0 = (Inr repoPath, w1)
      \<and> scanSkills h (fs w1) repoPath = (Inr skills, evs) \<and> s \<in> set skills
      \<and> resolve (fs w1) (repoPath @ [''skills-collection'', skill_id s]) = Inr dir
      \<and> \<not> readable dir"
  proof -
    from that have ne: "skills \<noteq> []" by auto
    from that have "resolve (fs (emit (Log ''packing skills'') (scanned evs w1)))
        (repoPath @ [''skills-collection'', skill_id s]) = Inr dir"
      by (simp add: emit_def scanned_def)
    moreover from that have "s \<in> set skills" and "\<not> readable dir" by simp_all
    ultimately have "isl (fst (pack_all h cfg skills repoPath
        (emit (Log ''packing skills'') (scanned evs w1))))"
      by (intro pack_all_unreadable)
    then have "isl (fst (publish h cfg repoPath skills (scanned evs w1)))"
      by (rule publish_pack_fails)
    with that ne have "isl (fst (run h cfg ?w0))"
      by (simp add: run_publish)
    then show ?thesis by (rule main_fails)
  qed
  have archive: "fst (main h cfg w) = 1"
    if "prepare h cfg ?w0 = (Inr repoPath, w1)
      \<and> scanSkills h (fs w1) repoPath = (Inr skills, evs) \<and> s \<in> set skills
      \<and> denies_write h (downloadsDir cfg @ [skill_id s @ ''.zip''])"
  proof -
    from that have ne: "skills \<noteq> []" by auto
    from that have "s \<in> set skills"
      and "denies_write h (downloadsDir cfg @ [skill_id s @ ''.zip''])" by simp_all
    then have "isl (fst (pack_all h cfg skills repoPath
        (emit (Log ''packing skills'') (scanned evs w1))))"
      by (rule pack_all_denied)
    then have "isl (fst (publish h cfg repoPath skills (scanned evs w1)))"
      by (rule publish_pack_fails)
    with that ne have "isl (fst (run h cfg ?w0))"
      by (simp add: run_publish)
    then show ?thesis by (rule main_fails)
  qed
  have index: "fst (main h cfg w) = 1"
    if "prepare h cfg ?w0 = (Inr repoPath, w1)
      \<and> scanSkills h (fs w1) repoPath = (Inr skills, evs) \<and> skills \<noteq> []
      \<and> denies_write h (outputPath cfg)"
  proof -
    from that have "isl (fst (publish h cfg repoPath skills (scanned evs w1)))"
      by (simp add: publish_index_denied)
    with that have "isl (fst (run h cfg ?w0))"
      by (simp add: run_publish)
    then show ?thesis by (rule main_fails)
  qed
  have contents: "fst (main h cfg w) = 1"
    if "prepare h cfg ?w0 = (Inr repoPath, w1)
      \<and> scanSkills h (fs w1) repoPath = (Inr skills, evs) \<and> s \<in> set skills
      \<and> denies_write h (root_dir cfg @ [''src'', ''data'', ''contents'', skill_id s @ ''.json''])"
  proof -
    from that have ne: "skills \<noteq> []" by auto
    from that have "s \<in> set skills"
      and "denies_write h (root_dir cfg @ [''src'', ''data'', ''contents'', skill_id s @ ''.json''])"
      by simp_all
    then have "isl (fst (publish h cfg repoPath skills (scanned evs w1)))"
      by (rule publish_content_denied)
    with that ne have "isl (fst (run h cfg ?w0))"
      by (simp add: run_publish)
    then show ?thesis by (rule main_fails)
  qed
  from soft caught norepo noclone scan pub read archive index contents show ?thesis by blast
qed

theorem soft_stop_exits_0_fatal_exits_1_witness:
  "fst (main demo_host demo_config empty_repo_world) = 0
   \<and> fs (snd (main demo_host demo_config empty_repo_world))
       = fs (snd (prepare demo_host demo_config (emit (Log ''sync started'') empty_repo_world)))
   \<and> fst (main demo_host demo_config no_repo_world) = 1
   \<and> fst (main demo_host remote_config no_repo_world) = 1
   \<and> fst (main demo_host demo_config locked_world) = 1
   \<and> fst (main no_archive_host demo_config demo_world) = 1
   \<and> fst (main readonly_host demo_config demo_world) = 1
   \<and> fst (main no_content_host demo_config demo_world) = 1
   \<and> fst (main demo_host demo_config demo_world) = 0"
proof -
  let ?start = "emit (Log ''sync started'')"
  note exits = soft_stop_exits_0_fatal_exits_1
  have "fst (prepare demo_host demo_config (?start empty_repo_world)) = Inr [''repo'']"
    by code_simp
  then obtain w1 where
    prep: "prepare demo_host demo_config (?start empty_repo_world) = (Inr [''repo''], w1)"
    by (cases "prepare demo_host demo_config (?start empty_repo_world)") simp
  have "fst (scanSkills demo_host
               (fs (snd (prepare demo_host demo_config (?start empty_repo_world)))) [''repo''])
          = Inr []"
    by code_simp
  then obtain evs where scan: "scanSkills demo_host (fs w1) [''repo''] = (Inr [], evs)"
    unfolding prep by (cases "scanSkills demo_host (fs w1) [''repo'']") simp
  from exits [where h = demo_host and cfg = demo_config and w = empty_repo_world
                and repoPath = "[''repo'']" and ?w1.0 = w1 and evs = evs] prep scan
  have soft: "main demo_host demo_config empty_repo_world
      = (0, emit (Warn ''no skills found'') (scanned evs w1))"
    by blast
  have "fst (clean_outputs demo_host demo_config (?start no_repo_world)) = Inr ()"
    by code_simp
  then obtain w3 where
    clean: "clean_outputs demo_host demo_config (?start no_repo_world) = (Inr (), w3)"
    by (cases "clean_outputs demo_host demo_config (?start no_repo_world)") simp
  have "access (fs (snd (clean_outputs demo_host demo_config (?start no_repo_world))))
          (localRepoPath demo_config) = Inl (Errno ''ENOENT'')"
    by code_simp
  then have missing: "access (fs w3) (localRepoPath demo_config) = Inl (Errno ''ENOENT'')"
    unfolding clean by simp
  have remote: "remoteRepoUrl demo_config = None"
    by (simp add: demo_config_def)
  from exits [where h = demo_host and cfg = demo_config and w = no_repo_world and u = "()"
                and ?w3.0 = w3 and e = "Errno ''ENOENT''"] clean missing remote
  have norepo: "fst (main demo_host demo_config no_repo_world) = 1"
    by blast
  have "fst (clean_outputs demo_host remote_config (?start no_repo_world)) = Inr ()"
    by code_simp
  then obtain w3' where
    clean': "clean_outputs demo_host remote_config (?start no_repo_world) = (Inr (), w3')"
    by (cases "clean_outputs demo_host remote_config (?start no_repo_world)") simp
  have "access (fs (snd (clean_outputs demo_host remote_config (?start no_repo_world))))
          (localRepoPath remote_config) = Inl (Errno ''ENOENT'')"
    by code_simp
  then have missing': "access (fs w3') (localRepoPath remote_config) = Inl (Errno ''ENOENT'')"
    unfolding clean' by simp
  have remote': "remoteRepoUrl remote_config = Some ''https://github.com/acme/skills''"
    by (simp add: remote_config_def)
  have offline: "git_clone demo_host (clone_url remote_config ''https://github.com/acme/skills'')
      = Inl (Failure ''no network'')"
    by (simp add: demo_host_def)
  from exits [where h = demo_host and cfg = remote_config and w = no_repo_world and u = "()"
                and ?w3.0 = w3' and e = "Errno ''ENOENT''"
                and url = "''https://github.com/acme/skills''"
                and e' = "Failure ''no network''"] clean' missing' remote' offline
  have noclone: "fst (main demo_host remote_config no_repo_world) = 1"
    by blast
  let ?p1 = "prepare demo_host demo_config (?start locked_world)"
  let ?s1 = "scanSkills demo_host (fs (snd ?p1)) [''repo'']"
  have "fst ?p1 = Inr [''repo'']"
    by code_simp
  then have prep1: "?p1 = (Inr [''repo''], snd ?p1)"
    by (cases ?p1) simp
  have found1: "\<not> isl (fst ?s1) \<and> list_ex (\<lambda>s. case resolve (fs (snd ?p1)) ([''repo''] @ [''skills-collection'', skill_id s]) of
                         Inr dir \<Rightarrow> \<not> readable dir
                       | Inl e \<Rightarrow> False) (projr (fst ?s1))"
    by code_simp
  then obtain skills1 where fst1: "fst ?s1 = Inr skills1"
    by (cases "fst ?s1") auto
  then have scan1: "?s1 = (Inr skills1, snd ?s1)"
    by (cases ?s1) simp
  from found1 obtain s1 where s1: "s1 \<in> set skills1"
    and "case resolve (fs (snd ?p1)) ([''repo''] @ [''skills-collection'', skill_id s1]) of
           Inr dir \<Rightarrow> \<not> readable dir | Inl e \<Rightarrow> False"
    unfolding fst1 by (auto simp: list_ex_iff)
  then obtain dir1 where
    dir1: "resolve (fs (snd ?p1)) ([''repo''] @ [''skills-collection'', skill_id s1]) = Inr dir1"
    and closed1: "\<not> readable dir1"
    by (auto split: sum.splits)
  from exits [where h = demo_host and cfg = demo_config and w = locked_world
                and repoPath = "[''repo'']" and ?w1.0 = "snd ?p1" and skills = skills1
                and evs = "snd ?s1" and s = s1 and dir = dir1]
    prep1 scan1 s1 dir1 closed1
  have locked: "fst (main demo_host demo_config locked_world) = 1"
    by blast
  let ?p2 = "prepare no_archive_host demo_config (?start demo_world)"
  let ?s2 = "scanSkills no_archive_host (fs (snd ?p2)) [''repo'']"
  have "fst ?p2 = Inr [''repo'']"
    by code_simp
  then have prep2: "?p2 = (Inr [''repo''], snd ?p2)"
    by (cases ?p2) simp
  have found2: "\<not> isl (fst ?s2) \<and> list_ex (\<lambda>s. denies_write no_archive_host (downloadsDir demo_config @ [skill_id s @ ''.zip'']))
          (projr (fst ?s2))"
    by code_simp
  then obtain skills2 where fst2: "fst ?s2 = Inr skills2"
    by (cases "fst ?s2") auto
  then have scan2: "?s2 = (Inr skills2, snd ?s2)"
    by (cases ?s2) simp
  from found2 obtain s2 where s2: "s2 \<in> set skills2"
    and denied2: "denies_write no_archive_host (downloadsDir demo_config @ [skill_id s2 @ ''.zip''])"
    unfolding fst2 by (auto simp: list_ex_iff)
  from exits [where h = no_archive_host and cfg = demo_config and w = demo_world
                and repoPath = "[''repo'']" and ?w1.0 = "snd ?p2" and skills = skills2
                and evs = "snd ?s2" and s = s2]
    prep2 scan2 s2 denied2
  have noarchive: "fst (main no_archive_host demo_config demo_world) = 1"
    by blast
  let ?p3 = "prepare readonly_host demo_config (?start demo_world)"
  let ?s3 = "scanSkills readonly_host (fs (snd ?p3)) [''repo'']"
  have "fst ?p3 = Inr [''repo'']"
    by code_simp
  then have prep3: "?p3 = (Inr [''repo''], snd ?p3)"
    by (cases ?p3) simp
  have found3: "\<not> isl (fst ?s3) \<and> projr (fst ?s3) \<noteq> [] \<and> denies_write readonly_host (outputPath demo_config)"
    by code_simp
  then obtain skills3 where fst3: "fst ?s3 = Inr skills3"
    by (cases "fst ?s3") auto
  then have scan3: "?s3 = (Inr skills3, snd ?s3)"
    by (cases ?s3) simp
  from found3 have some3: "skills3 \<noteq> []"
    and denied3: "denies_write readonly_host (outputPath demo_config)"
    unfolding fst3 by simp_all
  from exits [where h = readonly_host and cfg = demo_config and w = demo_world
                and repoPath = "[''repo'']" and ?w1.0 = "snd ?p3" and skills = skills3
                and evs = "snd ?s3"]
    prep3 scan3 some3 denied3
  have readonly: "fst (main readonly_host demo_config demo_world) = 1"
    by blast
  let ?p4 = "prepare no_content_host demo_config (?start demo_world)"
  let ?s4 = "scanSkills no_content_host (fs (snd ?p4)) [''repo'']"
  have "fst ?p4 = Inr [''repo'']"
    by code_simp
  then have prep4: "?p4 = (Inr [''repo''], snd ?p4)"
    by (cases ?p4) simp
  have found4: "\<not> isl (fst ?s4) \<and> list_ex (\<lambda>s. denies_write no_content_host
                         (root_dir demo_config
                            @ [''src'', ''data'', ''contents'', skill_id s @ ''.json'']))
          (projr (fst ?s4))"
    by code_simp
  then obtain skills4 where fst4: "fst ?s4 = Inr skills4"
    by (cases "fst ?s4") auto
  then have scan4: "?s4 = (Inr skills4, snd ?s4)"
    by (cases ?s4) simp
  from found4 obtain s4 where s4: "s4 \<in> set skills4"
    and denied4: "denies_write no_content_host
          (root_dir demo_config @ [''src'', ''data'', ''contents'', skill_id s4 @ ''.json''])"
    unfolding fst4 by (auto simp: list_ex_iff)
  from exits [where h = no_content_host and cfg = demo_config and w = demo_world
                and repoPath = "[''repo'']" and ?w1.0 = "snd ?p4" and skills = skills4
                and evs = "snd ?s4" and s = s4]
    prep4 scan4 s4 denied4
  have nocontent: "fst (main no_content_host demo_config demo_world) = 1"
    by blast
  have fine: "fst (main demo_host demo_config demo_world) = 0"
    by code_simp
  from soft norepo noclone locked noarchive readonly nocontent fine prep show ?thesis
    by (simp add: emit_def scanned_def)
qed

end
